theory Spec2Isabelle
  imports
    Complex_Main
    "HOL-Library.Char_ord"
    "HOL-Library.List_Lexorder"
    "HOL-Library.Product_Lexorder"
    "HOL-Library.Multiset"
begin

section \<open>Tables\<close>

text \<open>
  The script \<^verbatim>\<open>scripts/data_processing.py\<close> works on data frames. A frame is modelled as
  the list of its rows and a row as a record of the columns the script reads. A missing
  entry (null, None, NaN, NaT) is \<open>None\<close>.

  The reader infers the type of a column from the file. Here the text columns hold
  strings, the column \<^verbatim>\<open>Job #\<close> holds integers, and the three columns that are aggregated
  hold numbers. Numbers are exact rationals: the rounding of binary floating point, and
  with it the dependence of a rounded sum on the order of its terms, is outside this
  model. A calendar date is the triple (year, month, day),
  whose lexicographic order is the chronological one.
\<close>

type_synonym cell = "string option"
type_synonym num = "rat option"
type_synonym date = "nat \<times> nat \<times> nat"
type_synonym period = "nat \<times> nat"

text \<open>
  The fourteen columns that the group-by reads and that the aggregated frame has.
  The field names are the column names with \<open>_\<close> for a blank and \<open>Job_No\<close> for
  \<^verbatim>\<open>Job #\<close>.
\<close>

record agg_row =
  Borough :: cell
  Job_Type :: cell
  Job_Status :: cell
  Approved :: cell
  Job_No :: "int option"
  Building_Type :: cell
  Pre_Filing_Date :: cell
  BUILDING_CLASS :: cell
  Job_Description :: cell
  Date_Approved :: "date option"
  Fully_Paid :: cell
  GIS_LATITUDE :: num
  GIS_LONGITUDE :: num
  Initial_Cost :: num

text \<open>
  A row of the loaded table has the twelve indicator columns as well. The column
  \<open>Date_Approved\<close> is assigned by the script before it is read, so what a loaded row
  holds there is overwritten.
\<close>

record row = agg_row +
  Plumbing :: cell
  Mechanical :: cell
  Boiler :: cell
  Fuel_Burning :: cell
  Fuel_Storage :: cell
  Standpipe :: cell
  Sprinkler :: cell
  Fire_Alarm :: cell
  Equipment :: cell
  Fire_Suppression :: cell
  Curb_Cut :: cell
  Other :: cell

section \<open>Date parsing\<close>

text \<open>
  \<^verbatim>\<open>pd.to_datetime(col, format="%d/%m/%Y", errors="coerce")\<close>. The format is matched
  against the whole string. The three directives contain no \<open>/\<close>, so the string matches
  exactly when it has three fields separated by \<open>/\<close> and each field matches its
  directive:
  \<^item> \<open>%d\<close> is \<^verbatim>\<open>3[0-1]|[1-2]\d|0[1-9]|[1-9]| [1-9]\<close>,
  \<^item> \<open>%m\<close> is \<^verbatim>\<open>1[0-2]|0[1-9]|[1-9]\<close>,
  \<^item> \<open>%Y\<close> is \<^verbatim>\<open>\d\d\d\d\<close>.
  A match that is no calendar date (day 31 in a month of 30 days, year 0) is an error.
  So is a match whose date is outside the range of the timestamps: the result column is
  \<^verbatim>\<open>datetime64[ns]\<close>, nanoseconds in 64 bits, which reach from 1677-09-21 00:12:43.145224193
  to 2262-04-11 23:47:16.854775807, so that the first day that is representable at
  midnight is 22 September 1677 and the last 11 April 2262.
  With \<open>errors="coerce"\<close> every error, and a missing entry, gives NaT.
\<close>

definition is_digit :: "char \<Rightarrow> bool" where
  "is_digit c = (c \<in> set ''0123456789'')"

definition is_digit19 :: "char \<Rightarrow> bool" where
  "is_digit19 c = (c \<in> set ''123456789'')"

definition digit :: "char \<Rightarrow> nat" where
  "digit c = of_char c - 48"

fun split_on :: "char \<Rightarrow> string \<Rightarrow> string list" where
  "split_on c [] = [[]]"
| "split_on c (x # xs) =
     (if x = c then [] # split_on c xs
      else (case split_on c xs of
              [] \<Rightarrow> [[x]]
            | f # fs \<Rightarrow> (x # f) # fs))"

definition directive_d :: "string \<Rightarrow> nat option" where
  "directive_d f =
     (case f of
        [a] \<Rightarrow> if is_digit19 a then Some (digit a) else None
      | [a, b] \<Rightarrow>
          if (a = CHR ''3'' \<and> b \<in> set ''01'') \<or> (a \<in> set ''12'' \<and> is_digit b)
             \<or> (a = CHR ''0'' \<and> is_digit19 b)
          then Some (10 * digit a + digit b)
          else if a = CHR '' '' \<and> is_digit19 b then Some (digit b)
          else None
      | _ \<Rightarrow> None)"

definition directive_m :: "string \<Rightarrow> nat option" where
  "directive_m f =
     (case f of
        [a] \<Rightarrow> if is_digit19 a then Some (digit a) else None
      | [a, b] \<Rightarrow>
          if (a = CHR ''1'' \<and> b \<in> set ''012'') \<or> (a = CHR ''0'' \<and> is_digit19 b)
          then Some (10 * digit a + digit b)
          else None
      | _ \<Rightarrow> None)"

definition directive_Y :: "string \<Rightarrow> nat option" where
  "directive_Y f =
     (case f of
        [a, b, c, d] \<Rightarrow>
          if is_digit a \<and> is_digit b \<and> is_digit c \<and> is_digit d
          then Some (1000 * digit a + 100 * digit b + 10 * digit c + digit d)
          else None
      | _ \<Rightarrow> None)"

definition is_leap :: "nat \<Rightarrow> bool" where
  "is_leap y = (y mod 4 = 0 \<and> (y mod 100 \<noteq> 0 \<or> y mod 400 = 0))"

definition days_in_month :: "nat \<Rightarrow> nat \<Rightarrow> nat" where
  "days_in_month y m =
     (if m = 2 then (if is_leap y then 29 else 28)
      else if m \<in> {4, 6, 9, 11} then 30 else 31)"

definition valid_date :: "nat \<Rightarrow> nat \<Rightarrow> nat \<Rightarrow> bool" where
  "valid_date y m d =
     (1 \<le> y \<and> y \<le> 9999 \<and> 1 \<le> m \<and> m \<le> 12 \<and> 1 \<le> d \<and> d \<le> days_in_month y m)"

definition in_timestamp_bounds :: "date \<Rightarrow> bool" where
  "in_timestamp_bounds dt = ((1677, 9, 22) \<le> dt \<and> dt \<le> (2262, 4, 11))"

definition strptime :: "string \<Rightarrow> date option" where
  "strptime s =
     (case split_on CHR ''/'' s of
        [fd, fm, fy] \<Rightarrow>
          (case (directive_d fd, directive_m fm, directive_Y fy) of
             (Some d, Some m, Some y) \<Rightarrow>
               if valid_date y m d \<and> in_timestamp_bounds (y, m, d) then Some (y, m, d)
               else None
           | _ \<Rightarrow> None)
      | _ \<Rightarrow> None)"

definition to_datetime :: "cell \<Rightarrow> date option" where
  "to_datetime c = (case c of None \<Rightarrow> None | Some s \<Rightarrow> strptime s)"

section \<open>The transformer: \<^verbatim>\<open>process_data\<close>\<close>

text \<open>\<^verbatim>\<open>df_pandas["Date_Approved"] = pd.to_datetime(df_pandas["Approved"], ...)\<close>\<close>

definition assign_Date_Approved :: "row list \<Rightarrow> row list" where
  "assign_Date_Approved df = map (\<lambda>r. r\<lparr>Date_Approved := to_datetime (Approved r)\<rparr>) df"

text \<open>
  \<^verbatim>\<open>df_pandas[df_pandas["Date_Approved"].dt.year.isin([2023, 2024])]\<close>: the year of NaT
  is missing and is in no list.
\<close>

definition year_isin :: "'a agg_row_scheme \<Rightarrow> bool" where
  "year_isin r = (case Date_Approved r of None \<Rightarrow> False | Some (y, m, d) \<Rightarrow> y \<in> {2023, 2024})"

definition filter_years :: "row list \<Rightarrow> row list" where
  "filter_years df = filter year_isin (assign_Date_Approved df)"

text \<open>
  The group key of a row: the values of the eleven key columns, in the order of the
  \<^verbatim>\<open>groupby\<close> list. \<^verbatim>\<open>groupby\<close> is called with its defaults \<open>dropna=True\<close> and
  \<open>sort=True\<close>: a row with a missing entry in a key column is in no group, and the
  groups come in ascending order of their keys.
\<close>

type_synonym key =
  "string \<times> string \<times> string \<times> string \<times> int \<times> string \<times> string \<times> string \<times> string \<times> date \<times> string"

type_synonym key_cells =
  "cell \<times> cell \<times> cell \<times> cell \<times> int option \<times> cell \<times> cell \<times> cell \<times> cell \<times> date option \<times> cell"

definition key_columns :: "'a agg_row_scheme \<Rightarrow> key_cells" where
  "key_columns r =
     (Borough r, Job_Type r, Job_Status r, Approved r, Job_No r, Building_Type r,
      Pre_Filing_Date r, BUILDING_CLASS r, Job_Description r, Date_Approved r, Fully_Paid r)"

definition complete_key :: "key_cells \<Rightarrow> key option" where
  "complete_key cs =
     (case cs of (c1, c2, c3, c4, c5, c6, c7, c8, c9, c10, c11) \<Rightarrow>
        Option.bind c1 (\<lambda>k1.
        Option.bind c2 (\<lambda>k2.
        Option.bind c3 (\<lambda>k3.
        Option.bind c4 (\<lambda>k4.
        Option.bind c5 (\<lambda>k5.
        Option.bind c6 (\<lambda>k6.
        Option.bind c7 (\<lambda>k7.
        Option.bind c8 (\<lambda>k8.
        Option.bind c9 (\<lambda>k9.
        Option.bind c10 (\<lambda>k10.
        Option.bind c11 (\<lambda>k11.
          Some (k1, k2, k3, k4, k5, k6, k7, k8, k9, k10, k11)))))))))))))"

definition key_of :: "'a agg_row_scheme \<Rightarrow> key option" where
  "key_of r = complete_key (key_columns r)"

definition group_keys :: "'a agg_row_scheme list \<Rightarrow> key list" where
  "group_keys df = sort (remdups (List.map_filter key_of df))"

definition group_rows :: "key \<Rightarrow> 'a agg_row_scheme list \<Rightarrow> 'a agg_row_scheme list" where
  "group_rows k df = filter (\<lambda>r. key_of r = Some k) df"

text \<open>
  The aggregations skip missing entries. The mean of no value is missing, the sum of
  no value is 0.
\<close>

definition present :: "'a option list \<Rightarrow> 'a list" where
  "present vs = List.map_filter id vs"

definition agg_mean :: "num list \<Rightarrow> num" where
  "agg_mean vs =
     (if present vs = [] then None
      else Some (sum_list (present vs) / of_nat (length (present vs))))"

definition agg_sum :: "num list \<Rightarrow> num" where
  "agg_sum vs = Some (sum_list (present vs))"

text \<open>One row of the grouped frame after \<^verbatim>\<open>reset_index()\<close>: the key, then the aggregates.\<close>

definition group_row :: "key \<Rightarrow> 'a agg_row_scheme list \<Rightarrow> agg_row" where
  "group_row k g =
     (case k of (k1, k2, k3, k4, k5, k6, k7, k8, k9, k10, k11) \<Rightarrow>
        \<lparr>Borough = Some k1, Job_Type = Some k2, Job_Status = Some k3, Approved = Some k4,
         Job_No = Some k5, Building_Type = Some k6, Pre_Filing_Date = Some k7,
         BUILDING_CLASS = Some k8, Job_Description = Some k9, Date_Approved = Some k10,
         Fully_Paid = Some k11,
         GIS_LATITUDE = agg_mean (map GIS_LATITUDE g),
         GIS_LONGITUDE = agg_mean (map GIS_LONGITUDE g),
         Initial_Cost = agg_sum (map Initial_Cost g)\<rparr>)"

definition groupby_agg :: "'a agg_row_scheme list \<Rightarrow> agg_row list" where
  "groupby_agg df = map (\<lambda>k. group_row k (group_rows k df)) (group_keys df)"

text \<open>
  \<^verbatim>\<open>process_data\<close>. The empty frame \<^verbatim>\<open>pd.DataFrame()\<close> and a grouped frame without rows
  are both the empty list; the caller only reads \<^verbatim>\<open>.empty\<close>.
\<close>

definition process_data :: "row list \<Rightarrow> agg_row list" where
  "process_data df =
     (let df_filtered = filter_years df
      in if df_filtered = [] then [] else groupby_agg df_filtered)"

section \<open>The reporter: \<^verbatim>\<open>create_visualizations\<close>\<close>

text \<open>
  A row of the long frame: the id column \<^verbatim>\<open>Date_Approved\<close>, the variable column
  \<^verbatim>\<open>Job_Type\<close> and the value column \<^verbatim>\<open>Count\<close>. The value column holds the indicator
  cells after \<^verbatim>\<open>melt\<close> and integers after the conversion.
\<close>

record 'c long_row =
  long_Date_Approved :: "date option"
  long_Job_Type :: string
  Count :: 'c

definition columns_of_interest :: "(string \<times> (row \<Rightarrow> cell)) list" where
  "columns_of_interest =
     [(''Plumbing'', Plumbing), (''Mechanical'', Mechanical), (''Boiler'', Boiler),
      (''Fuel Burning'', Fuel_Burning), (''Fuel Storage'', Fuel_Storage),
      (''Standpipe'', Standpipe), (''Sprinkler'', Sprinkler), (''Fire Alarm'', Fire_Alarm),
      (''Equipment'', Equipment), (''Fire Suppression'', Fire_Suppression),
      (''Curb Cut'', Curb_Cut), (''Other'', Other)]"

text \<open>\<^verbatim>\<open>melt\<close> stacks the value columns one after the other, each over all rows.\<close>

definition melt :: "row list \<Rightarrow> cell long_row list" where
  "melt df =
     concat (map (\<lambda>(name, col).
       map (\<lambda>r. \<lparr>long_Date_Approved = Date_Approved r, long_Job_Type = name, Count = col r\<rparr>) df)
       columns_of_interest)"

text \<open>\<^verbatim>\<open>lambda x: 1 if x == "X" else 0\<close>\<close>

definition to_count :: "cell \<Rightarrow> int" where
  "to_count x = (if x = Some ''X'' then 1 else 0)"

definition apply_Count :: "cell long_row list \<Rightarrow> int option long_row list" where
  "apply_Count df_long =
     map (\<lambda>r. \<lparr>long_Date_Approved = long_Date_Approved r, long_Job_Type = long_Job_Type r,
               Count = Some (to_count (Count r))\<rparr>) df_long"

text \<open>\<^verbatim>\<open>df_long.dropna(subset=["Count"])\<close>\<close>

definition dropna_Count :: "'c option long_row list \<Rightarrow> 'c option long_row list" where
  "dropna_Count df_long = filter (\<lambda>r. Count r \<noteq> None) df_long"

text \<open>\<^verbatim>\<open>df_long["Date_Approved"].dt.to_period("M")\<close>: the month of NaT is missing.\<close>

definition Month_Approved :: "'c long_row \<Rightarrow> period option" where
  "Month_Approved r = map_option (\<lambda>(y, m, d). (y, m)) (long_Date_Approved r)"

text \<open>
  \<^verbatim>\<open>groupby(["Month_Approved", "Job_Type"])["Count"].sum().unstack(fill_value=0)\<close>:
  the groups are the pairs (month, job type) of the rows that have a month, the row
  labels of the matrix are the months of the groups and its column labels their job
  types, both ascending, and a pair that is no group is filled with 0.
\<close>

record matrix =
  index :: "period list"
  columns :: "string list"
  cells :: "int list list"

definition month_groups :: "int option long_row list \<Rightarrow> (period \<times> string) list" where
  "month_groups df_long =
     sort (remdups (List.map_filter
       (\<lambda>r. map_option (\<lambda>m. (m, long_Job_Type r)) (Month_Approved r)) df_long))"

definition month_sum :: "int option long_row list \<Rightarrow> period \<times> string \<Rightarrow> int" where
  "month_sum df_long g =
     sum_list (present (map Count
       (filter (\<lambda>r. Month_Approved r = Some (fst g) \<and> long_Job_Type r = snd g) df_long)))"

definition monthly_counts :: "int option long_row list \<Rightarrow> matrix" where
  "monthly_counts df_long =
     (let gs = month_groups df_long;
          ms = sort (remdups (map fst gs));
          js = sort (remdups (map snd gs))
      in \<lparr>index = ms, columns = js,
          cells = map (\<lambda>m. map (\<lambda>j. if (m, j) \<in> set gs then month_sum df_long (m, j) else 0) js) ms\<rparr>)"

text \<open>The frame that is plotted: one bar of the chart for each row label.\<close>

definition chart_matrix :: "row list \<Rightarrow> matrix" where
  "chart_matrix df_filtered = monthly_counts (dropna_Count (apply_Count (melt df_filtered)))"

section \<open>The driver: \<^verbatim>\<open>main\<close>\<close>

text \<open>
  The world of a run is the file system, a map from paths to contents, and the trace of
  what the run did to the outside. What the libraries and the network do is a parameter
  of the run: the answer to the HTTP request (an error, or the chunks of the body, which
  may break off), the CSV reader, the CSV writer, the renderer of the chart, and the day
  of the run that is part of the name of the raw file. What the script prints and the
  directories it creates when it is loaded are left out, and writing a file succeeds.
\<close>

datatype error = DownloadError | LoadError

datatype chunk = Chunk string | Broken

datatype event = HttpGet string | Write string

record world =
  fs :: "string \<rightharpoonup> string"
  trace :: "event list"

record env =
  today :: string
  http_get :: "string \<Rightarrow> error + chunk list"
  read_csv :: "string \<Rightarrow> error + row list"
  to_csv :: "agg_row list \<Rightarrow> string"
  savefig :: "matrix \<Rightarrow> string"

definition DATASET_URL :: string where
  "DATASET_URL = ''https://data.cityofnewyork.us/api/views/ic3t-wcy2/rows.csv?accessType=DOWNLOAD''"

definition RAW_DATA_FILE :: "env \<Rightarrow> string" where
  "RAW_DATA_FILE e = ''data/raw/DOB_Job_Application_Filings_'' @ today e @ ''.csv''"

definition PROCESSED_DATA_FILE :: string where
  "PROCESSED_DATA_FILE = ''data/processed/job_application_filings_output.csv''"

definition plot_path :: string where
  "plot_path = ''output/jobs_by_month_type.png''"

definition write_file :: "string \<Rightarrow> string \<Rightarrow> world \<Rightarrow> world" where
  "write_file path content w = w\<lparr>fs := (fs w)(path \<mapsto> content), trace := trace w @ [Write path]\<rparr>"

text \<open>
  The loop over the chunks of the response: the file holds what was written when the
  stream breaks off, and the exception is raised again.
\<close>

fun write_chunks :: "chunk list \<Rightarrow> string \<Rightarrow> error option \<times> string" where
  "write_chunks [] acc = (None, acc)"
| "write_chunks (Chunk c # cs) acc = write_chunks cs (acc @ c)"
| "write_chunks (Broken # cs) acc = (Some DownloadError, acc)"

definition download_data :: "env \<Rightarrow> string \<Rightarrow> string \<Rightarrow> world \<Rightarrow> (error + unit) \<times> world" where
  "download_data e url output_path w =
     (let w1 = w\<lparr>trace := trace w @ [HttpGet url]\<rparr>
      in case http_get e url of
           Inl err \<Rightarrow> (Inl err, w1)
         | Inr body \<Rightarrow>
             (case write_chunks body [] of
                (None, content) \<Rightarrow> (Inr (), write_file output_path content w1)
              | (Some err, content) \<Rightarrow> (Inl err, write_file output_path content w1)))"

definition load_data :: "env \<Rightarrow> string \<Rightarrow> world \<Rightarrow> error + row list" where
  "load_data e file_path w =
     (case fs w file_path of
        None \<Rightarrow> Inl LoadError
      | Some content \<Rightarrow> read_csv e content)"

definition save_processed_data :: "env \<Rightarrow> agg_row list \<Rightarrow> string \<Rightarrow> world \<Rightarrow> world" where
  "save_processed_data e df output_path w = write_file output_path (to_csv e df) w"

definition create_visualizations :: "env \<Rightarrow> row list \<Rightarrow> world \<Rightarrow> world" where
  "create_visualizations e df_filtered w = write_file plot_path (savefig e (chart_matrix df_filtered)) w"

definition main :: "env \<Rightarrow> world \<Rightarrow> (error + unit) \<times> world" where
  "main e w =
     (case (if fs w (RAW_DATA_FILE e) = None
            then download_data e DATASET_URL (RAW_DATA_FILE e) w
            else (Inr (), w)) of
        (Inl err, w1) \<Rightarrow> (Inl err, w1)
      | (Inr u, w1) \<Rightarrow>
          (case load_data e (RAW_DATA_FILE e) w1 of
             Inl err \<Rightarrow> (Inl err, w1)
           | Inr df_raw \<Rightarrow>
               (let df_processed = process_data df_raw
                in if df_processed = [] then (Inr (), w1)
                   else (let w2 = save_processed_data e df_processed PROCESSED_DATA_FILE w1;
                             df_filtered = filter_years df_raw
                         in (Inr (), create_visualizations e df_filtered w2)))))"

section \<open>Notions used in the statements\<close>

text \<open>
  The strings that denote a calendar date in the day/month/year format: the day with
  two digits, or with one digit, alone or after a blank, when it is less than 10; the
  month with two digits, or with one when it is less than 10; the year with four digits.
\<close>

definition dec1 :: "nat \<Rightarrow> char" where
  "dec1 n = ''0123456789'' ! n"

definition pad2 :: "nat \<Rightarrow> string" where
  "pad2 n = [dec1 (n div 10), dec1 (n mod 10)]"

definition pad4 :: "nat \<Rightarrow> string" where
  "pad4 n = [dec1 (n div 1000), dec1 (n div 100 mod 10), dec1 (n div 10 mod 10), dec1 (n mod 10)]"

definition day_forms :: "nat \<Rightarrow> string list" where
  "day_forms d = pad2 d # (if d < 10 then [[dec1 d], [CHR '' '', dec1 d]] else [])"

definition month_forms :: "nat \<Rightarrow> string list" where
  "month_forms m = pad2 m # (if m < 10 then [[dec1 m]] else [])"

definition dmy_strings :: "date \<Rightarrow> string list" where
  "dmy_strings dt =
     (case dt of (y, m, d) \<Rightarrow>
        concat (map (\<lambda>fd. map (\<lambda>fm. fd @ ''/'' @ fm @ ''/'' @ pad4 y) (month_forms m))
          (day_forms d)))"

text \<open>A row with a missing entry in one of the eleven key columns.\<close>

definition has_null_key :: "'a agg_row_scheme \<Rightarrow> bool" where
  "has_null_key r =
     (Borough r = None \<or> Job_Type r = None \<or> Job_Status r = None \<or> Approved r = None \<or>
      Job_No r = None \<or> Building_Type r = None \<or> Pre_Filing_Date r = None \<or>
      BUILDING_CLASS r = None \<or> Job_Description r = None \<or> Date_Approved r = None \<or>
      Fully_Paid r = None)"

text \<open>
  What a run that leads from the world \<open>w\<close> to the world \<open>w'\<close> has done: the events it
  added to the trace, and the file it left at a path if it wrote there.
\<close>

definition new_events :: "world \<Rightarrow> world \<Rightarrow> event list" where
  "new_events w w' = drop (length (trace w)) (trace w')"

definition written :: "string \<Rightarrow> world \<Rightarrow> world \<Rightarrow> string option" where
  "written path w w' = (if Write path \<in> set (new_events w w') then fs w' path else None)"

text \<open>Example tables.\<close>

definition filing :: "string \<Rightarrow> int \<Rightarrow> row" where
  "filing approved job =
     \<lparr>Borough = Some ''BROOKLYN'', Job_Type = Some ''A2'', Job_Status = Some ''R'',
      Approved = Some approved, Job_No = Some job, Building_Type = Some ''OTHER'',
      Pre_Filing_Date = Some ''02/01/2023'', BUILDING_CLASS = Some ''C1'',
      Job_Description = Some ''PLUMBING WORK'', Date_Approved = None,
      Fully_Paid = Some ''03/01/2023'',
      GIS_LATITUDE = Some 40, GIS_LONGITUDE = Some (- 74), Initial_Cost = Some 1000,
      Plumbing = Some ''X'', Mechanical = None, Boiler = None, Fuel_Burning = None,
      Fuel_Storage = None, Standpipe = None, Sprinkler = Some ''X'', Fire_Alarm = None,
      Equipment = None, Fire_Suppression = None, Curb_Cut = None, Other = Some []\<rparr>"

definition example_table :: "row list" where
  "example_table =
     [filing ''15/03/2023'' 7,
      filing ''31/12/2022'' 8,
      (filing ''15/03/2023'' 7)\<lparr>GIS_LATITUDE := Some 42, Initial_Cost := None\<rparr>,
      (filing ''01/12/2024'' 9)\<lparr>Borough := None\<rparr>,
      filing ''not-a-date'' 10]"

text \<open>A filing approved in January 2023 with no indicator marked: all twelve cells are missing.\<close>

definition unmarked_filing :: row where
  "unmarked_filing =
     (filing ''15/01/2023'' 11)\<lparr>Plumbing := None, Sprinkler := None, Other := None\<rparr>"

text \<open>A table without an approval in 2023 or 2024.\<close>

definition old_table :: "row list" where
  "old_table = [filing ''31/12/2022'' 8, filing ''not-a-date'' 10]"

text \<open>
  An environment in which the request for the data set is answered in two chunks, the
  reader gives the table \<open>df\<close> for the contents \<open>raw\<close> and an error for anything else, and
  the writers give fixed contents; and the world in which no file exists yet.
\<close>

definition example_env :: "row list \<Rightarrow> env" where
  "example_env df =
     \<lparr>today = ''20260101'',
      http_get = (\<lambda>url. if url = DATASET_URL then Inr [Chunk ''ra'', Chunk ''w''] else Inl DownloadError),
      read_csv = (\<lambda>content. if content = ''raw'' then Inr df else Inl LoadError),
      to_csv = (\<lambda>rows. ''csv''),
      savefig = (\<lambda>m. ''png'')\<rparr>"

definition empty_world :: world where
  "empty_world = \<lparr>fs = Map.empty, trace = []\<rparr>"

text \<open>
  The first step of \<^verbatim>\<open>main\<close> has left the world \<open>w1\<close> with the raw file in place: the file
  was there and nothing happened, or it was not and the download succeeded.
\<close>

definition raw_file_ready :: "env \<Rightarrow> world \<Rightarrow> world \<Rightarrow> bool" where
  "raw_file_ready e w w1 =
     (if fs w (RAW_DATA_FILE e) = None
      then download_data e DATASET_URL (RAW_DATA_FILE e) w = (Inr (), w1)
      else w1 = w)"

text \<open>The nine key columns other than \<^verbatim>\<open>Approved\<close> and \<^verbatim>\<open>Date_Approved\<close> have an entry.\<close>

definition other_keys_present :: "'a agg_row_scheme \<Rightarrow> bool" where
  "other_keys_present r =
     (Borough r \<noteq> None \<and> Job_Type r \<noteq> None \<and> Job_Status r \<noteq> None \<and> Job_No r \<noteq> None \<and>
      Building_Type r \<noteq> None \<and> Pre_Filing_Date r \<noteq> None \<and> BUILDING_CLASS r \<noteq> None \<and>
      Job_Description r \<noteq> None \<and> Fully_Paid r \<noteq> None)"

text \<open>Three filings: one approved in December 2024, one in 2022, one in January 2023.\<close>

definition three_filings :: "row list" where
  "three_filings = [filing ''01/12/2024'' 9, filing ''31/12/2022'' 8, filing ''15/01/2023'' 11]"

section \<open>Properties of the group-by\<close>

lemma key_of_eq_Some:
  "key_of r = Some (k1, k2, k3, k4, k5, k6, k7, k8, k9, k10, k11) \<longleftrightarrow>
     Borough r = Some k1 \<and> Job_Type r = Some k2 \<and> Job_Status r = Some k3 \<and>
     Approved r = Some k4 \<and> Job_No r = Some k5 \<and> Building_Type r = Some k6 \<and>
     Pre_Filing_Date r = Some k7 \<and> BUILDING_CLASS r = Some k8 \<and>
     Job_Description r = Some k9 \<and> Date_Approved r = Some k10 \<and> Fully_Paid r = Some k11"
  unfolding key_of_def key_columns_def complete_key_def prod.case
  apply (cases "Borough r"; simp)
  apply (cases "Job_Type r"; simp)
  apply (cases "Job_Status r"; simp)
  apply (cases "Approved r"; simp)
  apply (cases "Job_No r"; simp)
  apply (cases "Building_Type r"; simp)
  apply (cases "Pre_Filing_Date r"; simp)
  apply (cases "BUILDING_CLASS r"; simp)
  apply (cases "Job_Description r"; simp)
  apply (cases "Date_Approved r"; simp)
  apply (cases "Fully_Paid r"; simp)
  done

lemma key_of_eq_None: "key_of r = None \<longleftrightarrow> has_null_key r"
  unfolding key_of_def key_columns_def complete_key_def has_null_key_def prod.case
  apply (cases "Borough r"; simp)
  apply (cases "Job_Type r"; simp)
  apply (cases "Job_Status r"; simp)
  apply (cases "Approved r"; simp)
  apply (cases "Job_No r"; simp)
  apply (cases "Building_Type r"; simp)
  apply (cases "Pre_Filing_Date r"; simp)
  apply (cases "BUILDING_CLASS r"; simp)
  apply (cases "Job_Description r"; simp)
  apply (cases "Date_Approved r"; simp)
  apply (cases "Fully_Paid r"; simp)
  done

lemma key_cases:
  obtains k1 k2 k3 k4 k5 k6 k7 k8 k9 k10 k11
  where "(k::key) = (k1, k2, k3, k4, k5, k6, k7, k8, k9, k10, k11)"
proof (cases k rule: prod_cases7)
  case (fields k1 k2 k3 k4 k5 k6 rest)
  then show ?thesis
    using that by (cases rest rule: prod_cases5) simp
qed

lemma key_of_group_row: "key_of (group_row k g) = Some k"
  by (cases k rule: key_cases) (simp add: group_row_def key_of_eq_Some)

lemma map_filter_eq_if_map_Some: "map f xs = map Some ys \<Longrightarrow> List.map_filter f xs = ys"
  by (induction xs arbitrary: ys) (auto simp: List.map_filter_simps)

lemma set_map_filter: "set (List.map_filter f xs) = {y. \<exists>x\<in>set xs. f x = Some y}"
  by (induction xs) (auto simp: List.map_filter_simps split: option.splits)

lemma set_group_keys: "set (group_keys df) = {k. \<exists>r\<in>set df. key_of r = Some k}"
  by (simp add: group_keys_def set_map_filter)

lemma distinct_group_keys: "distinct (group_keys df)"
  by (simp add: group_keys_def)

lemma sorted_group_keys: "sorted (group_keys df)"
  by (simp add: group_keys_def)

lemma map_key_of_groupby_agg: "map key_of (groupby_agg df) = map Some (group_keys df)"
  by (simp add: groupby_agg_def key_of_group_row)

lemma length_groupby_agg: "length (groupby_agg df) = length (group_keys df)"
  by (simp add: groupby_agg_def)

lemma sort_remdups_id: "sorted xs \<Longrightarrow> distinct xs \<Longrightarrow> sort (remdups xs) = xs"
  by (simp add: distinct_remdups_id sort_key_id_if_sorted)

lemma group_keys_groupby_agg: "group_keys (groupby_agg df) = group_keys df"
proof -
  have "List.map_filter key_of (groupby_agg df) = group_keys df"
    by (rule map_filter_eq_if_map_Some) (rule map_key_of_groupby_agg)
  then show ?thesis
    using sort_remdups_id [OF sorted_group_keys distinct_group_keys, of df]
    by (simp add: group_keys_def [of "groupby_agg df"])
qed

lemma filter_eq_singleton: "distinct ks \<Longrightarrow> k \<in> set ks \<Longrightarrow> filter (\<lambda>x. x = k) ks = [k]"
  by (induction ks) (auto simp: filter_empty_conv)

lemma group_rows_groupby_agg:
  assumes "k \<in> set (group_keys df)"
  shows "group_rows k (groupby_agg df) = [group_row k (group_rows k df)]"
proof -
  have "group_rows k (groupby_agg df) =
          map (\<lambda>k. group_row k (group_rows k df)) (filter (\<lambda>x. x = k) (group_keys df))"
    by (simp add: group_rows_def groupby_agg_def filter_map comp_def key_of_group_row)
  then show ?thesis
    using filter_eq_singleton [OF distinct_group_keys assms] by simp
qed

lemma present_simps:
  "present [] = []" "present (None # vs) = present vs" "present (Some v # vs) = v # present vs"
  by (simp_all add: present_def List.map_filter_simps)

lemma agg_mean_singleton: "agg_mean [agg_mean vs] = agg_mean vs"
  by (cases "agg_mean vs") (simp_all add: agg_mean_def present_simps)

lemma agg_sum_singleton: "agg_sum [agg_sum vs] = agg_sum vs"
  by (simp add: agg_sum_def present_simps)

lemma group_row_singleton: "group_row k [group_row k g] = group_row k g"
  by (cases k rule: key_cases) (simp add: group_row_def agg_mean_singleton agg_sum_singleton)

lemma groupby_agg_idem: "groupby_agg (groupby_agg df) = groupby_agg df"
proof -
  have "groupby_agg (groupby_agg df) =
          map (\<lambda>k. group_row k (group_rows k (groupby_agg df))) (group_keys df)"
    by (simp add: groupby_agg_def [of "groupby_agg df"] group_keys_groupby_agg)
  also have "\<dots> = map (\<lambda>k. group_row k (group_rows k df)) (group_keys df)"
    by (rule map_cong) (simp_all add: group_rows_groupby_agg group_row_singleton)
  finally show ?thesis by (simp add: groupby_agg_def)
qed

lemma groupby_agg_Nil: "groupby_agg [] = []"
  by (simp add: groupby_agg_def group_keys_def List.map_filter_simps)

subsection \<open>Permuted rows, in exact arithmetic\<close>

text \<open>
  The groups and their member rows do not depend on the order of the rows. With exact sums
  the aggregates do not either; of sums that are rounded step by step nothing is said.
\<close>

lemma mset_present: "mset xs = mset ys \<Longrightarrow> mset (present xs) = mset (present ys)"
proof -
  assume "mset xs = mset ys"
  then have "mset (filter (\<lambda>x. x \<noteq> None) xs) = mset (filter (\<lambda>x. x \<noteq> None) ys)"
    by simp
  then have "image_mset the (mset (filter (\<lambda>x. x \<noteq> None) xs)) =
             image_mset the (mset (filter (\<lambda>x. x \<noteq> None) ys))"
    by simp
  then show ?thesis
    by (simp add: present_def List.map_filter_def)
qed

lemma agg_mean_mset:
  assumes "mset xs = mset ys"
  shows "agg_mean xs = agg_mean ys"
proof -
  have m: "mset (present xs) = mset (present ys)" by (rule mset_present [OF assms])
  have "sum_list (present xs) = sum_list (present ys)"
    using arg_cong [OF m, of sum_mset] by (simp add: sum_mset_sum_list)
  moreover have "length (present xs) = length (present ys)"
    using arg_cong [OF m, of size] by simp
  moreover have "present xs = [] \<longleftrightarrow> present ys = []"
    using arg_cong [OF m, of "\<lambda>M. M = {#}"] by simp
  ultimately show ?thesis by (simp add: agg_mean_def)
qed

lemma agg_sum_mset:
  assumes "mset xs = mset ys"
  shows "agg_sum xs = agg_sum ys"
proof -
  have m: "mset (present xs) = mset (present ys)" by (rule mset_present [OF assms])
  have "sum_list (present xs) = sum_list (present ys)"
    using arg_cong [OF m, of sum_mset] by (simp add: sum_mset_sum_list)
  then show ?thesis by (simp add: agg_sum_def)
qed

lemma group_row_mset:
  assumes "mset g = mset g'"
  shows "group_row k g = group_row k g'"
proof -
  have "mset (map f g) = mset (map f g')" for f :: "'a agg_row_scheme \<Rightarrow> num"
    using assms by simp
  then show ?thesis
    by (simp add: group_row_def agg_mean_mset [of "map GIS_LATITUDE g" "map GIS_LATITUDE g'"]
        agg_mean_mset [of "map GIS_LONGITUDE g" "map GIS_LONGITUDE g'"]
        agg_sum_mset [of "map Initial_Cost g" "map Initial_Cost g'"])
qed

lemma group_keys_cong:
  assumes "set (List.map_filter key_of df) = set (List.map_filter key_of df')"
  shows "group_keys df = group_keys df'"
proof -
  have "sort (remdups xs) = sorted_list_of_set (set xs)" for xs :: "key list"
    by (simp add: sorted_list_of_set_sort_remdups)
  then show ?thesis
    by (simp add: group_keys_def assms)
qed

lemma group_keys_mset:
  assumes "mset df = mset df'"
  shows "group_keys df = group_keys df'"
proof -
  have "set df = set df'" using assms by (rule mset_eq_setD)
  then show ?thesis
    by (intro group_keys_cong) (simp add: set_map_filter)
qed

lemma groupby_agg_mset:
  assumes "mset df = mset df'"
  shows "groupby_agg df = groupby_agg df'"
proof -
  have "mset (group_rows k df) = mset (group_rows k df')" for k
    using assms by (simp add: group_rows_def)
  then have "group_row k (group_rows k df) = group_row k (group_rows k df')" for k
    by (rule group_row_mset)
  then show ?thesis
    by (simp add: groupby_agg_def group_keys_mset [OF assms])
qed

lemma filter_years_mset:
  assumes "mset df = mset df'"
  shows "mset (filter_years df) = mset (filter_years df')"
proof -
  have "mset (filter_years d) =
          filter_mset year_isin
            (image_mset (\<lambda>r. r\<lparr>Date_Approved := to_datetime (Approved r)\<rparr>) (mset d))" for d
    by (simp add: filter_years_def assign_Date_Approved_def)
  then show ?thesis
    by (simp only: assms)
qed

lemma process_data_mset:
  assumes "mset df = mset df'"
  shows "process_data df = process_data df'"
proof -
  have m: "mset (filter_years df) = mset (filter_years df')"
    by (rule filter_years_mset [OF assms])
  have "filter_years df = [] \<longleftrightarrow> filter_years df' = []"
    using arg_cong [OF m, of "\<lambda>M. M = {#}"] by simp
  then show ?thesis
    using groupby_agg_mset [OF m] by (simp add: process_data_def Let_def)
qed

subsection \<open>Rows without a complete key\<close>

lemma map_filter_key_of_drop:
  "List.map_filter key_of (filter (\<lambda>r. \<not> has_null_key r) df) = List.map_filter key_of df"
  by (induction df)
     (simp_all add: List.map_filter_simps key_of_eq_None [symmetric] split: option.splits)

lemma group_rows_drop:
  "group_rows k (filter (\<lambda>r. \<not> has_null_key r) df) = group_rows k df"
proof -
  have "(\<not> has_null_key r \<and> key_of r = Some k) = (key_of r = Some k)"
    for r :: "'a agg_row_scheme"
    using key_of_eq_None [of r] by auto
  then show ?thesis
    by (simp add: group_rows_def)
qed

lemma groupby_agg_drop_null_keys:
  "groupby_agg (filter (\<lambda>r. \<not> has_null_key r) df) = groupby_agg df"
  by (simp add: groupby_agg_def group_keys_def map_filter_key_of_drop group_rows_drop)

subsection \<open>The example table\<close>

lemmas date_defs = to_datetime_def strptime_def directive_d_def directive_m_def directive_Y_def
  is_digit_def is_digit19_def digit_def valid_date_def in_timestamp_bounds_def
  days_in_month_def is_leap_def

lemma filter_years_example:
  "filter_years example_table =
     [(filing ''15/03/2023'' 7)\<lparr>Date_Approved := Some (2023, 3, 15)\<rparr>,
      (filing ''15/03/2023'' 7)\<lparr>Date_Approved := Some (2023, 3, 15), GIS_LATITUDE := Some 42,
         Initial_Cost := None\<rparr>,
      (filing ''01/12/2024'' 9)\<lparr>Date_Approved := Some (2024, 12, 1), Borough := None\<rparr>]"
  by (simp add: example_table_def filing_def filter_years_def assign_Date_Approved_def
      year_isin_def date_defs)

lemma process_data_example:
  "process_data example_table =
     [\<lparr>Borough = Some ''BROOKLYN'', Job_Type = Some ''A2'', Job_Status = Some ''R'',
       Approved = Some ''15/03/2023'', Job_No = Some 7, Building_Type = Some ''OTHER'',
       Pre_Filing_Date = Some ''02/01/2023'', BUILDING_CLASS = Some ''C1'',
       Job_Description = Some ''PLUMBING WORK'', Date_Approved = Some (2023, 3, 15),
       Fully_Paid = Some ''03/01/2023'',
       GIS_LATITUDE = Some 41, GIS_LONGITUDE = Some (- 74), Initial_Cost = Some 1000\<rparr>]"
  by (simp add: process_data_def filter_years_example filing_def groupby_agg_def group_keys_def
      group_rows_def group_row_def List.map_filter_def key_of_def key_columns_def complete_key_def
      agg_mean_def agg_sum_def present_def)

lemma process_data_unfold: "process_data df = groupby_agg (filter_years df)"
  by (simp add: process_data_def Let_def groupby_agg_Nil)

lemma groupby_agg_rows:
  assumes "out \<in> set (groupby_agg df)"
  shows "\<exists>k. k \<in> set (group_keys df) \<and> out = group_row k (group_rows k df)"
proof -
  from assms have "out \<in> (\<lambda>k. group_row k (group_rows k df)) ` set (group_keys df)"
    by (simp add: groupby_agg_def)
  then show ?thesis by blast
qed

lemma group_row_aggregates:
  "GIS_LATITUDE (group_row k g) = agg_mean (map GIS_LATITUDE g)"
  "GIS_LONGITUDE (group_row k g) = agg_mean (map GIS_LONGITUDE g)"
  "Initial_Cost (group_row k g) = agg_sum (map Initial_Cost g)"
  by (cases k rule: key_cases; simp add: group_row_def)+

lemma length_groupby_agg_le:
  "length (groupby_agg df) \<le> length (remdups (map key_columns df))"
proof -
  have "set (group_keys df) \<subseteq> (\<lambda>c. the (complete_key c)) ` set (map key_columns df)"
    by (force simp: set_group_keys key_of_def)
  then have "card (set (group_keys df)) \<le> card (set (map key_columns df))"
    by (meson List.finite_set card_image_le card_mono finite_imageI le_trans)
  then show ?thesis
    by (simp add: length_groupby_agg distinct_card [OF distinct_group_keys]
        length_remdups_card_conv)
qed

section \<open>The claims about the transformer\<close>

text \<open>
  Claim C1. When the filtered table has at least one row, the transformer groups its rows
  by the eleven key columns and gives exactly one output row for each group: the keys of
  the output rows are pairwise different, a key belongs to an output row exactly when it
  is the key of a filtered row, and in the output row of a key the latitude and the
  longitude are the arithmetic means (the sum divided by the number) of the values that
  the rows of the group have there, and the initial cost is the sum of their values.
  A latitude or longitude that no row of the group has is missing in the output row.
\<close>

theorem process_data_one_row_per_group:
  assumes "filter_years df \<noteq> []"
  shows "distinct (map key_of (process_data df)) \<and>
     (\<forall>k. (\<exists>out\<in>set (process_data df). key_of out = Some k) \<longleftrightarrow>
          (\<exists>r\<in>set (filter_years df). key_of r = Some k)) \<and>
     (\<forall>out\<in>set (process_data df). \<exists>k. key_of out = Some k \<and>
        (let g = group_rows k (filter_years df);
             lat = present (map GIS_LATITUDE g);
             lon = present (map GIS_LONGITUDE g);
             cost = present (map Initial_Cost g)
         in g \<noteq> [] \<and>
            GIS_LATITUDE out = (if lat = [] then None else Some (sum_list lat / of_nat (length lat))) \<and>
            GIS_LONGITUDE out = (if lon = [] then None else Some (sum_list lon / of_nat (length lon))) \<and>
            Initial_Cost out = Some (sum_list cost)))"
proof (intro conjI allI ballI)
  let ?F = "filter_years df"
  have pd: "process_data df = groupby_agg ?F" by (rule process_data_unfold)
  have keys: "map key_of (process_data df) = map Some (group_keys ?F)"
    by (simp add: pd map_key_of_groupby_agg)
  show "distinct (map key_of (process_data df))"
    by (simp add: keys distinct_map distinct_group_keys)
  show "(\<exists>out\<in>set (process_data df). key_of out = Some k) \<longleftrightarrow>
        (\<exists>r\<in>set ?F. key_of r = Some k)" for k
  proof -
    have "(\<exists>out\<in>set (process_data df). key_of out = Some k) \<longleftrightarrow>
          Some k \<in> set (map key_of (process_data df))"
      by (simp add: image_iff) metis
    also have "\<dots> \<longleftrightarrow> k \<in> set (group_keys ?F)"
      by (simp only: keys) auto
    also have "\<dots> \<longleftrightarrow> (\<exists>r\<in>set ?F. key_of r = Some k)"
      by (simp add: set_group_keys)
    finally show ?thesis .
  qed
  show "\<exists>k. key_of out = Some k \<and>
        (let g = group_rows k ?F;
             lat = present (map GIS_LATITUDE g);
             lon = present (map GIS_LONGITUDE g);
             cost = present (map Initial_Cost g)
         in g \<noteq> [] \<and>
            GIS_LATITUDE out = (if lat = [] then None else Some (sum_list lat / of_nat (length lat))) \<and>
            GIS_LONGITUDE out = (if lon = [] then None else Some (sum_list lon / of_nat (length lon))) \<and>
            Initial_Cost out = Some (sum_list cost))"
    if "out \<in> set (process_data df)" for out
  proof -
    from that obtain k where k: "k \<in> set (group_keys ?F)"
      and out: "out = group_row k (group_rows k ?F)"
      using groupby_agg_rows [of out ?F] unfolding pd by blast
    from k obtain r where "r \<in> set ?F" "key_of r = Some k"
      by (auto simp: set_group_keys)
    then have ne: "group_rows k ?F \<noteq> []"
      by (auto simp: group_rows_def filter_empty_conv)
    show ?thesis
      by (rule exI [of _ k])
         (simp add: out key_of_group_row group_row_aggregates ne agg_mean_def agg_sum_def Let_def)
  qed
qed

theorem process_data_one_row_per_group_witness:
  "filter_years example_table \<noteq> [] \<and>
   distinct (map key_of (process_data example_table)) \<and>
   map GIS_LATITUDE (process_data example_table) = [Some ((40 + 42) / 2)] \<and>
   map GIS_LONGITUDE (process_data example_table) = [Some ((- 74 + - 74) / 2)] \<and>
   map Initial_Cost (process_data example_table) = [Some 1000]"
proof -
  have h: "filter_years example_table \<noteq> []"
    by (simp add: filter_years_example)
  from process_data_one_row_per_group [OF h]
  have d: "distinct (map key_of (process_data example_table))"
    by (rule conjunct1)
  show ?thesis
    using h d by (simp add: process_data_example)
qed

text \<open>
  Claim C4. Aggregating the output of the transformer again, grouped by the same eleven
  key columns, with the mean of the two coordinate columns and the sum of the cost column,
  gives that output unchanged.
\<close>

theorem aggregation_idempotent: "groupby_agg (process_data df) = process_data df"
  by (simp add: process_data_def Let_def groupby_agg_Nil groupby_agg_idem)

theorem aggregation_idempotent_witness:
  "groupby_agg (process_data example_table) = process_data example_table \<and>
   length (process_data example_table) = 1"
  using aggregation_idempotent [of example_table] by (simp add: process_data_example)

text \<open>
  Claim C10. A row of the filtered table with a missing entry in one of the eleven key
  columns contributes to no row of the aggregated output: the output is that of the table
  without such rows, and no group contains one. The output has at most as many rows as
  there are different tuples of key entries, missing entries counted, and it has fewer for
  the example table, where one of the two tuples has no borough.
\<close>

theorem null_key_rows_excluded:
  fixes df :: "row list"
  shows "groupby_agg df = groupby_agg (filter (\<lambda>r. \<not> has_null_key r) df) \<and>
    process_data df = groupby_agg (filter (\<lambda>r. \<not> has_null_key r) (filter_years df)) \<and>
    (\<forall>out\<in>set (groupby_agg df). \<forall>k. key_of out = Some k \<longrightarrow>
       (\<forall>r\<in>set (group_rows k df). \<not> has_null_key r)) \<and>
    length (groupby_agg df) \<le> length (remdups (map key_columns df)) \<and>
    length (process_data example_table) <
      length (remdups (map key_columns (filter_years example_table)))"
proof (intro conjI ballI allI impI)
  show "groupby_agg df = groupby_agg (filter (\<lambda>r. \<not> has_null_key r) df)"
    by (simp add: groupby_agg_drop_null_keys)
  show "process_data df = groupby_agg (filter (\<lambda>r. \<not> has_null_key r) (filter_years df))"
    by (simp add: groupby_agg_drop_null_keys process_data_unfold)
  show "\<not> has_null_key r" if "r \<in> set (group_rows k df)" for k r
    using that key_of_eq_None [of r] by (simp add: group_rows_def)
  show "length (groupby_agg df) \<le> length (remdups (map key_columns df))"
    by (rule length_groupby_agg_le)
  show "length (process_data example_table) <
      length (remdups (map key_columns (filter_years example_table)))"
    by (simp add: process_data_example filter_years_example key_columns_def filing_def)
qed

theorem null_key_rows_excluded_witness:
  "has_null_key (filter_years example_table ! 2) \<and>
   groupby_agg (filter_years example_table) =
     groupby_agg (filter (\<lambda>r. \<not> has_null_key r) (filter_years example_table)) \<and>
   length (groupby_agg (filter_years example_table)) \<le>
     length (remdups (map key_columns (filter_years example_table)))"
proof -
  note t = null_key_rows_excluded [of "filter_years example_table"]
  have a: "has_null_key (filter_years example_table ! 2)"
    by (simp add: filter_years_example has_null_key_def)
  from t have b: "groupby_agg (filter_years example_table) =
      groupby_agg (filter (\<lambda>r. \<not> has_null_key r) (filter_years example_table))"
    by (rule conjunct1)
  from t have c: "length (groupby_agg (filter_years example_table)) \<le>
      length (remdups (map key_columns (filter_years example_table)))"
    by (elim conjE)
  show ?thesis
    using a b c by (intro conjI)
qed

section \<open>Properties of date parsing\<close>

lemma lt10_cases: "n < 10 \<Longrightarrow> n \<in> {0, 1, 2, 3, 4, 5, 6, 7, 8, 9::nat}"
  by auto

lemma dec1_digit: "n < 10 \<Longrightarrow> digit (dec1 n) = n \<and> is_digit (dec1 n) \<and> dec1 n \<noteq> CHR ''/''"
  by (drule lt10_cases) (auto simp: digit_def dec1_def is_digit_def)

lemma dec1_digit19: "1 \<le> n \<Longrightarrow> n < 10 \<Longrightarrow> is_digit19 (dec1 n)"
  by (drule lt10_cases) (auto simp: dec1_def is_digit19_def)

lemma is_digit_dec1: "is_digit c \<Longrightarrow> c = dec1 (digit c) \<and> digit c < 10"
  by (auto simp: digit_def dec1_def is_digit_def)

lemma is_digit19_dec1: "is_digit19 c \<Longrightarrow> c = dec1 (digit c) \<and> digit c < 10 \<and> 1 \<le> digit c"
  by (auto simp: digit_def dec1_def is_digit19_def)

lemma dec1_inj: "a < 10 \<Longrightarrow> b < 10 \<Longrightarrow> dec1 a = dec1 b \<Longrightarrow> a = b"
  by (metis dec1_digit)

lemma divmod10: "d < 10 \<Longrightarrow> (10 * q + d) div 10 = q \<and> (10 * q + d) mod 10 = (d::nat)"
  by simp

lemma digits4:
  fixes a b c d :: nat
  assumes "a < 10" "b < 10" "c < 10" "d < 10"
  shows "(1000 * a + 100 * b + 10 * c + d) div 1000 = a"
    and "(1000 * a + 100 * b + 10 * c + d) div 100 mod 10 = b"
    and "(1000 * a + 100 * b + 10 * c + d) div 10 mod 10 = c"
    and "(1000 * a + 100 * b + 10 * c + d) mod 10 = d"
    and "1000 * a + 100 * b + 10 * c + d \<le> 9999"
proof -
  let ?y = "1000 * a + 100 * b + 10 * c + d"
  have y: "?y = 10 * (100 * a + 10 * b + c) + d" by simp
  have q1: "?y div 10 = 10 * (10 * a + b) + c" and r1: "?y mod 10 = d"
    using divmod10 [OF assms(4), of "100 * a + 10 * b + c"] unfolding y by simp_all
  have q2: "?y div 10 div 10 = 10 * a + b" and r2: "?y div 10 mod 10 = c"
    using divmod10 [OF assms(3), of "10 * a + b"] unfolding q1 by simp_all
  have q3: "?y div 10 div 10 div 10 = a" and r3: "?y div 10 div 10 mod 10 = b"
    using divmod10 [OF assms(2), of a] unfolding q2 by simp_all
  have d2: "?y div 10 div 10 = ?y div 100" and d3: "?y div 10 div 10 div 10 = ?y div 1000"
    by (simp_all only: div_mult2_eq [symmetric]) simp_all
  show "?y div 1000 = a" using q3 d3 by simp
  show "?y div 100 mod 10 = b" using r3 d2 by simp
  show "?y div 10 mod 10 = c" by (rule r2)
  show "?y mod 10 = d" by (rule r1)
  show "?y \<le> 9999" using assms by simp
qed

lemma digits4_lt:
  fixes y :: nat
  assumes "y \<le> 9999"
  shows "y div 1000 < 10" "y div 100 mod 10 < 10" "y div 10 mod 10 < 10" "y mod 10 < 10"
  using assms by simp_all

lemma digits4_sum:
  fixes y :: nat
  shows "1000 * (y div 1000) + 100 * (y div 100 mod 10) + 10 * (y div 10 mod 10) + y mod 10 = y"
proof -
  have e1: "10 * (y div 10) + y mod 10 = y" by simp
  have "y div 10 div 10 = y div 100" "y div 100 div 10 = y div 1000"
    by (simp_all add: div_mult2_eq [symmetric])
  then have e2: "10 * (y div 100) + y div 10 mod 10 = y div 10"
    and e3: "10 * (y div 1000) + y div 100 mod 10 = y div 100"
    using mult_div_mod_eq [of 10 "y div 10"] mult_div_mod_eq [of 10 "y div 100"] by simp_all
  show ?thesis using e1 e2 e3 by linarith
qed


lemma directive_Y_iff: "directive_Y f = Some y \<longleftrightarrow> y \<le> 9999 \<and> f = pad4 y"
proof
  assume "directive_Y f = Some y"
  then obtain a b c d where f: "f = [a, b, c, d]"
    and dg: "is_digit a" "is_digit b" "is_digit c" "is_digit d"
    and y: "y = 1000 * digit a + 100 * digit b + 10 * digit c + digit d"
    by (auto simp: directive_Y_def split: list.splits if_splits)
  note A = is_digit_dec1 [OF dg(1)] and B = is_digit_dec1 [OF dg(2)]
    and C = is_digit_dec1 [OF dg(3)] and D = is_digit_dec1 [OF dg(4)]
  have "y div 1000 = digit a" "y div 100 mod 10 = digit b" "y div 10 mod 10 = digit c"
    "y mod 10 = digit d" "y \<le> 9999"
    unfolding y using A B C D by (simp_all add: digits4)
  then show "y \<le> 9999 \<and> f = pad4 y"
    using A B C D by (simp add: f pad4_def)
next
  assume a: "y \<le> 9999 \<and> f = pad4 y"
  then show "directive_Y f = Some y"
    using digits4_lt [of y] digits4_sum [of y] by (simp add: directive_Y_def pad4_def dec1_digit)
qed

lemma day_cases:
  "1 \<le> d \<Longrightarrow> d \<le> 31 \<Longrightarrow>
     d \<in> {1, 2, 3, 4, 5, 6, 7, 8, 9, 10, 11, 12, 13, 14, 15, 16, 17, 18, 19, 20, 21, 22, 23,
          24, 25, 26, 27, 28, 29, 30, 31::nat}"
  by (simp only: insert_iff empty_iff) arith

lemma directive_d_complete:
  "1 \<le> d \<Longrightarrow> d \<le> 31 \<Longrightarrow> f \<in> set (day_forms d) \<Longrightarrow> directive_d f = Some d"
  by (drule (1) day_cases)
     (auto simp: day_forms_def pad2_def dec1_def directive_d_def digit_def is_digit_def
        is_digit19_def)

lemma directive_d_sound:
  "directive_d f = Some d \<Longrightarrow> 1 \<le> d \<and> d \<le> 31 \<and> f \<in> set (day_forms d)"
  by (auto simp: day_forms_def pad2_def dec1_def directive_d_def digit_def is_digit_def
        is_digit19_def split: list.splits if_splits)

lemma directive_m_complete:
  "1 \<le> m \<Longrightarrow> m \<le> 12 \<Longrightarrow> f \<in> set (month_forms m) \<Longrightarrow> directive_m f = Some m"
proof -
  assume "1 \<le> m" "m \<le> 12"
  then have "m \<in> {1, 2, 3, 4, 5, 6, 7, 8, 9, 10, 11, 12}"
    by (simp only: insert_iff empty_iff) arith
  moreover assume "f \<in> set (month_forms m)"
  ultimately show ?thesis
    by (auto simp: month_forms_def pad2_def dec1_def directive_m_def digit_def is_digit_def
        is_digit19_def)
qed

lemma directive_m_sound:
  "directive_m f = Some m \<Longrightarrow> 1 \<le> m \<and> m \<le> 12 \<and> f \<in> set (month_forms m)"
  by (auto simp: month_forms_def pad2_def dec1_def directive_m_def digit_def is_digit_def
        is_digit19_def split: list.splits if_splits)


lemma no_slash_d: "directive_d f = Some d \<Longrightarrow> CHR ''/'' \<notin> set f"
  by (auto simp: directive_d_def is_digit_def is_digit19_def split: list.splits if_splits)

lemma no_slash_m: "directive_m f = Some m \<Longrightarrow> CHR ''/'' \<notin> set f"
  by (auto simp: directive_m_def is_digit_def is_digit19_def split: list.splits if_splits)

lemma no_slash_Y: "directive_Y f = Some y \<Longrightarrow> CHR ''/'' \<notin> set f"
  by (auto simp: directive_Y_def is_digit_def split: list.splits if_splits)

lemma split_on_not_Nil: "split_on c s \<noteq> []"
  by (induction s) (auto split: list.splits)

lemma split_on_no_sep: "c \<notin> set a \<Longrightarrow> split_on c a = [a]"
  by (induction a) auto

lemma split_on_append: "c \<notin> set a \<Longrightarrow> split_on c (a @ c # rest) = a # split_on c rest"
  by (induction a) (auto split: list.splits simp: split_on_not_Nil)

lemma split_on_three:
  assumes "c \<notin> set a" "c \<notin> set b" "c \<notin> set d"
  shows "split_on c (a @ c # b @ c # d) = [a, b, d]"
  using assms by (simp add: split_on_append split_on_no_sep)

lemma split_on_Cons:
  "split_on c s = f # gs \<Longrightarrow>
     c \<notin> set f \<and> (if gs = [] then s = f else \<exists>rest. s = f @ c # rest \<and> split_on c rest = gs)"
proof (induction s arbitrary: f gs)
  case Nil
  then show ?case by simp
next
  case (Cons x xs)
  show ?case
  proof (cases "x = c")
    case True
    with Cons.prems show ?thesis
      using split_on_not_Nil [of c xs] by auto
  next
    case False
    with Cons.prems obtain g where g: "split_on c xs = g # gs" and f: "f = x # g"
      by (auto split: list.splits simp: split_on_not_Nil)
    from Cons.IH [OF g] False f show ?thesis
      by (auto split: if_splits)
  qed
qed

lemma split_on_three_iff:
  "split_on c s = [a, b, d] \<longleftrightarrow>
     s = a @ c # b @ c # d \<and> c \<notin> set a \<and> c \<notin> set b \<and> c \<notin> set d"
proof
  assume h: "split_on c s = [a, b, d]"
  from split_on_Cons [OF h] obtain r1 where a: "c \<notin> set a" and s: "s = a @ c # r1"
    and r1: "split_on c r1 = [b, d]"
    by auto
  from split_on_Cons [OF r1] obtain r2 where b: "c \<notin> set b" and s1: "r1 = b @ c # r2"
    and r2: "split_on c r2 = [d]"
    by auto
  from split_on_Cons [OF r2] have "c \<notin> set d" "r2 = d"
    by auto
  with a b s s1 show "s = a @ c # b @ c # d \<and> c \<notin> set a \<and> c \<notin> set b \<and> c \<notin> set d"
    by simp
next
  assume "s = a @ c # b @ c # d \<and> c \<notin> set a \<and> c \<notin> set b \<and> c \<notin> set d"
  then show "split_on c s = [a, b, d]"
    by (simp add: split_on_three)
qed

lemma days_in_month_le: "days_in_month y m \<le> 31"
  by (simp add: days_in_month_def)

lemma strptime_iff:
  "strptime s = Some (y, m, d) \<longleftrightarrow>
     valid_date y m d \<and> in_timestamp_bounds (y, m, d) \<and> s \<in> set (dmy_strings (y, m, d))"
proof
  assume h: "strptime s = Some (y, m, d)"
  then obtain fd fm fy where sp: "split_on CHR ''/'' s = [fd, fm, fy]"
    by (auto simp: strptime_def split: list.splits)
  with h have dd: "directive_d fd = Some d" and dm: "directive_m fm = Some m"
    and dy: "directive_Y fy = Some y" and v: "valid_date y m d"
    and b: "in_timestamp_bounds (y, m, d)"
    by (auto simp: strptime_def split: option.splits if_splits)
  from sp have s: "s = fd @ CHR ''/'' # fm @ CHR ''/'' # fy"
    by (simp add: split_on_three_iff)
  have "fd \<in> set (day_forms d)" "fm \<in> set (month_forms m)" "fy = pad4 y"
    using directive_d_sound [OF dd] directive_m_sound [OF dm] dy
    by (simp_all add: directive_Y_iff)
  then have "s \<in> set (dmy_strings (y, m, d))"
    by (auto simp: dmy_strings_def s)
  with v b show "valid_date y m d \<and> in_timestamp_bounds (y, m, d) \<and>
      s \<in> set (dmy_strings (y, m, d))"
    by simp
next
  assume h: "valid_date y m d \<and> in_timestamp_bounds (y, m, d) \<and>
      s \<in> set (dmy_strings (y, m, d))"
  then obtain fd fm where fd: "fd \<in> set (day_forms d)" and fm: "fm \<in> set (month_forms m)"
    and s: "s = fd @ CHR ''/'' # fm @ CHR ''/'' # pad4 y"
    by (auto simp: dmy_strings_def)
  from h have v: "valid_date y m d" and b: "in_timestamp_bounds (y, m, d)"
    by simp_all
  from v have "1 \<le> d" "d \<le> 31" "1 \<le> m" "m \<le> 12" "y \<le> 9999"
    using days_in_month_le [of y m] by (simp_all add: valid_date_def)
  then have dd: "directive_d fd = Some d" and dm: "directive_m fm = Some m"
    and dy: "directive_Y (pad4 y) = Some y"
    using fd fm by (simp_all add: directive_d_complete directive_m_complete directive_Y_iff)
  have "split_on CHR ''/'' s = [fd, fm, pad4 y]"
    unfolding s using no_slash_d [OF dd] no_slash_m [OF dm] no_slash_Y [OF dy]
    by (rule split_on_three)
  then show "strptime s = Some (y, m, d)"
    using dd dm dy v b by (simp add: strptime_def)
qed

lemma strptime_eq_None:
  "strptime s = None \<longleftrightarrow>
     (\<nexists>y m d. valid_date y m d \<and> in_timestamp_bounds (y, m, d) \<and>
        s \<in> set (dmy_strings (y, m, d)))"
proof -
  have "strptime s = None \<longleftrightarrow> (\<nexists>y m d. strptime s = Some (y, m, d))"
    by (cases "strptime s") auto
  then show ?thesis
    by (simp only: strptime_iff)
qed

text \<open>
  Claim C3, as stated, fails. The strings \<open>01/01/1500\<close> and \<open>31/12/9999\<close> are in the
  day/month/year format and denote calendar dates, yet they are parsed to the null date:
  their dates are outside the range of the timestamps.
\<close>

theorem to_datetime_out_of_bounds_counterexample:
  "valid_date 1500 1 1 \<and> ''01/01/1500'' \<in> set (dmy_strings (1500, 1, 1)) \<and>
   to_datetime (Some ''01/01/1500'') = None \<and>
   valid_date 9999 12 31 \<and> ''31/12/9999'' \<in> set (dmy_strings (9999, 12, 31)) \<and>
   to_datetime (Some ''31/12/9999'') = None"
  by (simp add: date_defs dmy_strings_def day_forms_def month_forms_def pad2_def pad4_def
      dec1_def)

text \<open>
  Claim C3, amended. Date parsing maps every string that denotes, in the day/month/year
  format, a calendar date from 22 September 1677 to 11 April 2262 to that date, as it maps
  \<open>15/03/2023\<close> to year 2023, month 3, day 15; it maps every other string, as
  \<open>not-a-date\<close>, and a missing entry to the null date; and a row whose parsed date is null
  is in the table with the assigned dates but not in the filtered table, all of whose rows
  have a date.
\<close>

theorem to_datetime_day_month_year:
  "(\<forall>y m d s. valid_date y m d \<and> in_timestamp_bounds (y, m, d) \<and>
        s \<in> set (dmy_strings (y, m, d)) \<longrightarrow>
      to_datetime (Some s) = Some (y, m, d)) \<and>
   to_datetime (Some ''15/03/2023'') = Some (2023, 3, 15) \<and>
   (\<forall>s. (\<nexists>y m d. valid_date y m d \<and> in_timestamp_bounds (y, m, d) \<and>
        s \<in> set (dmy_strings (y, m, d))) \<longrightarrow>
      to_datetime (Some s) = None) \<and>
   to_datetime (Some ''not-a-date'') = None \<and>
   to_datetime None = None \<and>
   (\<forall>df. \<forall>r\<in>set df. to_datetime (Approved r) = None \<longrightarrow>
      r\<lparr>Date_Approved := None\<rparr> \<in> set (assign_Date_Approved df) \<and>
      r\<lparr>Date_Approved := None\<rparr> \<notin> set (filter_years df)) \<and>
   (\<forall>df. \<forall>r\<in>set (filter_years df). Date_Approved r \<noteq> None)"
proof (intro conjI allI ballI impI)
  show "to_datetime (Some s) = Some (y, m, d)"
    if "valid_date y m d \<and> in_timestamp_bounds (y, m, d) \<and> s \<in> set (dmy_strings (y, m, d))"
    for y m d s
    using that by (simp add: to_datetime_def strptime_iff)
  show "to_datetime (Some ''15/03/2023'') = Some (2023, 3, 15)"
    by (simp add: date_defs)
  show "to_datetime (Some s) = None"
    if "\<nexists>y m d. valid_date y m d \<and> in_timestamp_bounds (y, m, d) \<and>
          s \<in> set (dmy_strings (y, m, d))" for s
    unfolding to_datetime_def option.case using that by (rule iffD2 [OF strptime_eq_None])
  show "to_datetime (Some ''not-a-date'') = None"
    by (simp add: date_defs)
  show "to_datetime None = None"
    by (simp add: to_datetime_def)
  show "r\<lparr>Date_Approved := None\<rparr> \<in> set (assign_Date_Approved df)"
    if "r \<in> set df" "to_datetime (Approved r) = None" for df r
    using that by (force simp: assign_Date_Approved_def)
  show "r\<lparr>Date_Approved := None\<rparr> \<notin> set (filter_years df)" for df r
    by (simp add: filter_years_def year_isin_def)
  show "Date_Approved r \<noteq> None" if "r \<in> set (filter_years df)" for df r
    using that by (cases "Date_Approved r") (simp_all add: filter_years_def year_isin_def)
qed

theorem to_datetime_day_month_year_witness:
  "valid_date 2024 2 29 \<and> in_timestamp_bounds (2024, 2, 29) \<and>
   ''29/02/2024'' \<in> set (dmy_strings (2024, 2, 29)) \<and>
   to_datetime (Some ''29/02/2024'') = Some (2024, 2, 29) \<and>
   valid_date 1677 9 22 \<and> in_timestamp_bounds (1677, 9, 22) \<and>
   ''22/9/1677'' \<in> set (dmy_strings (1677, 9, 22)) \<and>
   to_datetime (Some ''22/9/1677'') = Some (1677, 9, 22) \<and>
   valid_date 2262 4 11 \<and> in_timestamp_bounds (2262, 4, 11) \<and>
   ''11/04/2262'' \<in> set (dmy_strings (2262, 4, 11)) \<and>
   to_datetime (Some ''11/04/2262'') = Some (2262, 4, 11) \<and>
   valid_date 2023 3 5 \<and> in_timestamp_bounds (2023, 3, 5) \<and>
   '' 5/3/2023'' \<in> set (dmy_strings (2023, 3, 5)) \<and>
   to_datetime (Some '' 5/3/2023'') = Some (2023, 3, 5) \<and>
   to_datetime (Some ''21/09/1677'') = None \<and>
   to_datetime (Some ''12/04/2262'') = None \<and>
   to_datetime (Some ''31/02/2023'') = None \<and>
   (filing ''not-a-date'' 10)\<lparr>Date_Approved := None\<rparr> \<notin> set (filter_years example_table)"
proof -
  note t = to_datetime_day_month_year
  note forms = valid_date_def in_timestamp_bounds_def days_in_month_def is_leap_def
    dmy_strings_def day_forms_def month_forms_def pad2_def pad4_def dec1_def
  have v: "valid_date 2024 2 29 \<and> in_timestamp_bounds (2024, 2, 29) \<and>
      ''29/02/2024'' \<in> set (dmy_strings (2024, 2, 29))"
    by (simp add: forms)
  have lo: "valid_date 1677 9 22 \<and> in_timestamp_bounds (1677, 9, 22) \<and>
      ''22/9/1677'' \<in> set (dmy_strings (1677, 9, 22))"
    by (simp add: forms)
  have hi: "valid_date 2262 4 11 \<and> in_timestamp_bounds (2262, 4, 11) \<and>
      ''11/04/2262'' \<in> set (dmy_strings (2262, 4, 11))"
    by (simp add: forms)
  have w: "valid_date 2023 3 5 \<and> in_timestamp_bounds (2023, 3, 5) \<and>
      '' 5/3/2023'' \<in> set (dmy_strings (2023, 3, 5))"
    by (simp add: forms)
  from t have fwd: "\<forall>y m d s. valid_date y m d \<and> in_timestamp_bounds (y, m, d) \<and>
        s \<in> set (dmy_strings (y, m, d)) \<longrightarrow>
      to_datetime (Some s) = Some (y, m, d)"
    by (rule conjunct1)
  have a: "to_datetime (Some ''29/02/2024'') = Some (2024, 2, 29)"
    using fwd v by blast
  have a1: "to_datetime (Some ''22/9/1677'') = Some (1677, 9, 22)"
    using fwd lo by blast
  have a2: "to_datetime (Some ''11/04/2262'') = Some (2262, 4, 11)"
    using fwd hi by blast
  have b: "to_datetime (Some '' 5/3/2023'') = Some (2023, 3, 5)"
    using fwd w by blast
  have c: "to_datetime (Some ''21/09/1677'') = None" "to_datetime (Some ''12/04/2262'') = None"
    "to_datetime (Some ''31/02/2023'') = None"
    by (simp_all add: date_defs)
  from t have ex: "\<forall>df. \<forall>r\<in>set df. to_datetime (Approved r) = None \<longrightarrow>
      r\<lparr>Date_Approved := None\<rparr> \<in> set (assign_Date_Approved df) \<and>
      r\<lparr>Date_Approved := None\<rparr> \<notin> set (filter_years df)"
    by (elim conjE)
  have m: "filing ''not-a-date'' 10 \<in> set example_table"
    by (simp add: example_table_def)
  have n: "to_datetime (Approved (filing ''not-a-date'' 10)) = None"
    by (simp add: filing_def date_defs)
  have e: "(filing ''not-a-date'' 10)\<lparr>Date_Approved := None\<rparr> \<notin> set (filter_years example_table)"
    using ex m n by blast
  show ?thesis
    using v lo hi w a a1 a2 b c e by (intro conjI) simp_all
qed

section \<open>Properties of the reporter\<close>

lemma filter_years_unmarked:
  "filter_years [unmarked_filing] = [unmarked_filing\<lparr>Date_Approved := Some (2023, 1, 15)\<rparr>]"
  by (simp add: unmarked_filing_def filing_def filter_years_def assign_Date_Approved_def
      year_isin_def date_defs)

lemma melt_unmarked:
  "map Count (melt (filter_years [unmarked_filing])) = replicate 12 None"
  unfolding filter_years_unmarked
  by (simp add: melt_def columns_of_interest_def unmarked_filing_def filing_def numeral_eq_Suc)

lemma apply_Count_unmarked:
  "apply_Count (melt (filter_years [unmarked_filing])) =
     map (\<lambda>name. \<lparr>long_Date_Approved = Some (2023, 1, 15), long_Job_Type = name, Count = Some 0\<rparr>)
       (map fst columns_of_interest)"
  unfolding filter_years_unmarked
  by (simp add: melt_def columns_of_interest_def unmarked_filing_def filing_def apply_Count_def
      to_count_def)

lemma index_unmarked: "index (chart_matrix (filter_years [unmarked_filing])) = [(2023, 1)]"
  by (simp add: chart_matrix_def apply_Count_unmarked dropna_Count_def columns_of_interest_def
     monthly_counts_def month_groups_def List.map_filter_def Month_Approved_def Let_def)

lemma dropna_apply_Count: "dropna_Count (apply_Count df_long) = apply_Count df_long"
  by (induction df_long) (simp_all add: dropna_Count_def apply_Count_def)

lemma dropna_Count_present: "r \<in> set (dropna_Count df_long) \<Longrightarrow> Count r \<noteq> None"
  by (simp add: dropna_Count_def)

lemma melt_row:
  assumes "r \<in> set df" "(name, col) \<in> set columns_of_interest"
  shows "\<lparr>long_Date_Approved = Date_Approved r, long_Job_Type = name, Count = col r\<rparr>
           \<in> set (melt df)"
  using assms unfolding melt_def by force

lemma melt_rows:
  assumes "l \<in> set (melt df)"
  shows "\<exists>r\<in>set df. long_Date_Approved l = Date_Approved r"
  using assms unfolding melt_def by auto

lemma apply_Count_row:
  assumes "l \<in> set df_long"
  shows "\<lparr>long_Date_Approved = long_Date_Approved l, long_Job_Type = long_Job_Type l,
           Count = Some (to_count (Count l))\<rparr> \<in> set (apply_Count df_long)"
  using assms unfolding apply_Count_def by force

lemma apply_Count_rows:
  assumes "l' \<in> set (apply_Count df_long)"
  shows "\<exists>l\<in>set df_long. long_Date_Approved l' = long_Date_Approved l"
  using assms unfolding apply_Count_def by auto

lemma set_month_groups:
  "set (month_groups df_long) =
     {g. \<exists>r\<in>set df_long. Month_Approved r = Some (fst g) \<and> long_Job_Type r = snd g}"
  unfolding month_groups_def by (auto simp: set_map_filter)

lemma set_index_monthly_counts:
  "set (index (monthly_counts df_long)) = {m. \<exists>r\<in>set df_long. Month_Approved r = Some m}"
proof -
  have "set (index (monthly_counts df_long)) = fst ` set (month_groups df_long)"
    by (simp add: monthly_counts_def Let_def)
  also have "\<dots> = {m. \<exists>r\<in>set df_long. Month_Approved r = Some m}"
  proof (intro set_eqI iffI)
    fix m
    assume "m \<in> fst ` set (month_groups df_long)"
    then obtain g where "g \<in> set (month_groups df_long)" "m = fst g"
      by blast
    then show "m \<in> {m. \<exists>r\<in>set df_long. Month_Approved r = Some m}"
      unfolding set_month_groups by blast
  next
    fix m
    assume "m \<in> {m. \<exists>r\<in>set df_long. Month_Approved r = Some m}"
    then obtain r where r: "r \<in> set df_long" "Month_Approved r = Some m"
      by blast
    then have "(m, long_Job_Type r) \<in> set (month_groups df_long)"
      unfolding set_month_groups by force
    then show "m \<in> fst ` set (month_groups df_long)"
      by force
  qed
  finally show ?thesis .
qed

lemma sorted_index_monthly_counts:
  "sorted (index (monthly_counts df_long)) \<and> distinct (index (monthly_counts df_long))"
  by (simp add: monthly_counts_def Let_def)

lemma Month_Approved_eq:
  "Month_Approved l = Some p \<longleftrightarrow> (\<exists>d. long_Date_Approved l = Some (fst p, snd p, d))"
  by (cases "long_Date_Approved l") (auto simp: Month_Approved_def)

lemma set_index_chart_matrix:
  "set (index (chart_matrix df)) = {p. \<exists>r\<in>set df. \<exists>d. Date_Approved r = Some (fst p, snd p, d)}"
proof -
  have "(\<exists>l\<in>set (apply_Count (melt df)). long_Date_Approved l = x) \<longleftrightarrow>
        (\<exists>r\<in>set df. Date_Approved r = x)" for x
  proof
    assume "\<exists>l\<in>set (apply_Count (melt df)). long_Date_Approved l = x"
    then show "\<exists>r\<in>set df. Date_Approved r = x"
      using apply_Count_rows melt_rows by metis
  next
    assume "\<exists>r\<in>set df. Date_Approved r = x"
    then obtain r where r: "r \<in> set df" "Date_Approved r = x" by blast
    have "(''Plumbing'', Plumbing) \<in> set columns_of_interest"
      by (simp add: columns_of_interest_def)
    from apply_Count_row [OF melt_row [OF r(1) this]] r(2)
    show "\<exists>l\<in>set (apply_Count (melt df)). long_Date_Approved l = x"
      by force
  qed
  then show ?thesis
    unfolding chart_matrix_def dropna_apply_Count set_index_monthly_counts Month_Approved_eq
    by blast
qed

text \<open>
  Claim C6. The indicator conversion gives the count 1 for a cell that is exactly the
  string \<open>X\<close> and the count 0 for every other cell, the empty string and a missing entry
  among them; the converted column of a long frame holds these counts row by row.
\<close>

theorem indicator_conversion:
  "to_count (Some ''X'') = 1 \<and>
   (\<forall>x. x \<noteq> Some ''X'' \<longrightarrow> to_count x = 0) \<and>
   to_count (Some []) = 0 \<and>
   to_count None = 0 \<and>
   (\<forall>df_long. map Count (apply_Count df_long) =
      map (\<lambda>l. Some (if Count l = Some ''X'' then 1 else 0)) df_long)"
  by (simp add: to_count_def apply_Count_def)

theorem indicator_conversion_witness:
  "Some ''x'' \<noteq> Some ''X'' \<and> to_count (Some ''x'') = 0 \<and>
   Some ''X '' \<noteq> Some ''X'' \<and> to_count (Some ''X '') = 0"
proof -
  from indicator_conversion have t: "\<forall>x. x \<noteq> Some ''X'' \<longrightarrow> to_count x = 0"
    by (elim conjE)
  have a: "Some ''x'' \<noteq> Some ''X''" and b: "Some ''X '' \<noteq> Some ''X''" by simp_all
  show ?thesis
    using a b t [rule_format, OF a] t [rule_format, OF b] by (intro conjI)
qed

text \<open>
  Claim C7, as stated, fails. In the filtered table of one filing approved in January 2023
  whose twelve indicator cells are all missing, every long-form row stems from a missing
  cell. The claim says that none of them reaches the monthly bucketing, so that the
  matrix would have no row, as it has none for the empty table. Yet all twelve rows are
  kept and the matrix has the row of January 2023.
\<close>

theorem missing_indicator_counterexample:
  "map Count (melt (filter_years [unmarked_filing])) = replicate 12 None \<and>
   length (dropna_Count (apply_Count (melt (filter_years [unmarked_filing])))) = 12 \<and>
   index (chart_matrix (filter_years [unmarked_filing])) = [(2023, 1)] \<and>
   index (chart_matrix (filter_years [])) = []"
proof -
  have "set (index (chart_matrix (filter_years []))) = {}"
    by (simp add: set_index_chart_matrix filter_years_def assign_Date_Approved_def)
  then have "index (chart_matrix (filter_years [])) = []"
    by simp
  then show ?thesis
    by (simp add: melt_unmarked index_unmarked dropna_apply_Count apply_Count_unmarked
        columns_of_interest_def dropna_Count_def)
qed

text \<open>
  Claim C7, amended. Dropping the rows that lack a count leaves only rows with a count;
  after the conversion every long-form row has one, so the drop removes nothing. A
  long-form row whose indicator cell was missing has the count 0 and is kept, and every
  filtered row with a date contributes its month as a row of the month-by-category
  matrix.
\<close>

theorem count_rows_kept:
  "(\<forall>df_long::int option long_row list. \<forall>l\<in>set (dropna_Count df_long). Count l \<noteq> None) \<and>
   (\<forall>df_long. dropna_Count (apply_Count df_long) = apply_Count df_long) \<and>
   (\<forall>df. \<forall>r\<in>set df. \<forall>c\<in>set columns_of_interest. snd c r = None \<longrightarrow>
      \<lparr>long_Date_Approved = Date_Approved r, long_Job_Type = fst c, Count = Some 0\<rparr>
        \<in> set (dropna_Count (apply_Count (melt df)))) \<and>
   (\<forall>df. \<forall>r\<in>set df. \<forall>y m d. Date_Approved r = Some (y, m, d) \<longrightarrow>
      (y, m) \<in> set (index (chart_matrix df)))"
proof (intro conjI allI ballI impI)
  show "Count l \<noteq> None" if "l \<in> set (dropna_Count df_long)"
    for df_long :: "int option long_row list" and l
    using that by (rule dropna_Count_present)
  show "dropna_Count (apply_Count df_long) = apply_Count df_long" for df_long
    by (rule dropna_apply_Count)
  show "\<lparr>long_Date_Approved = Date_Approved r, long_Job_Type = fst c, Count = Some 0\<rparr>
        \<in> set (dropna_Count (apply_Count (melt df)))"
    if "r \<in> set df" "c \<in> set columns_of_interest" "snd c r = None" for df r c
  proof -
    have "(fst c, snd c) \<in> set columns_of_interest" using that(2) by simp
    from apply_Count_row [OF melt_row [OF that(1) this]] that(3) show ?thesis
      by (simp add: dropna_apply_Count to_count_def)
  qed
  show "(y, m) \<in> set (index (chart_matrix df))"
    if "r \<in> set df" "Date_Approved r = Some (y, m, d)" for df r y m d
    unfolding set_index_chart_matrix using that by force
qed

theorem count_rows_kept_witness:
  "unmarked_filing\<lparr>Date_Approved := Some (2023, 1, 15)\<rparr> \<in> set (filter_years [unmarked_filing]) \<and>
   (''Boiler'', Boiler) \<in> set columns_of_interest \<and>
   Boiler (unmarked_filing\<lparr>Date_Approved := Some (2023, 1, 15)\<rparr>) = None \<and>
   \<lparr>long_Date_Approved = Some (2023, 1, 15), long_Job_Type = ''Boiler'', Count = Some 0\<rparr>
     \<in> set (dropna_Count (apply_Count (melt (filter_years [unmarked_filing])))) \<and>
   (2023, 1) \<in> set (index (chart_matrix (filter_years [unmarked_filing])))"
proof -
  let ?r = "unmarked_filing\<lparr>Date_Approved := Some (2023, 1, 15)\<rparr>"
  have a: "?r \<in> set (filter_years [unmarked_filing])"
    by (simp add: filter_years_unmarked)
  have b: "(''Boiler'', Boiler) \<in> set columns_of_interest"
    by (simp add: columns_of_interest_def)
  have c: "Boiler ?r = None"
    by (simp add: unmarked_filing_def filing_def)
  have d: "Date_Approved ?r = Some (2023, 1, 15)"
    by simp
  note t = count_rows_kept
  from t have t3: "\<forall>df. \<forall>r\<in>set df. \<forall>c\<in>set columns_of_interest. snd c r = None \<longrightarrow>
      \<lparr>long_Date_Approved = Date_Approved r, long_Job_Type = fst c, Count = Some 0\<rparr>
        \<in> set (dropna_Count (apply_Count (melt df)))"
    by (elim conjE)
  from t have t4: "\<forall>df. \<forall>r\<in>set df. \<forall>y m d. Date_Approved r = Some (y, m, d) \<longrightarrow>
      (y, m) \<in> set (index (chart_matrix df))"
    by (elim conjE)
  have e: "\<lparr>long_Date_Approved = Some (2023, 1, 15), long_Job_Type = ''Boiler'', Count = Some 0\<rparr>
     \<in> set (dropna_Count (apply_Count (melt (filter_years [unmarked_filing]))))"
    using t3 [rule_format, OF a b] c by simp
  have f: "(2023, 1) \<in> set (index (chart_matrix (filter_years [unmarked_filing])))"
    using t4 [rule_format, OF a d] .
  show ?thesis
    using a b c e f by (intro conjI)
qed

section \<open>End to end on three rows\<close>

lemma to_datetime_Some_Approved: "to_datetime c = Some dt \<Longrightarrow> c \<noteq> None"
  by (cases c) (simp_all add: to_datetime_def)

lemma key_of_dated:
  assumes "other_keys_present r" "Approved r \<noteq> None"
  shows "\<exists>k1 k2 k3 k4 k5 k6 k7 k8 k9 k11.
           key_of (r\<lparr>Date_Approved := Some dt\<rparr>) = Some (k1, k2, k3, k4, k5, k6, k7, k8, k9, dt, k11)"
  using assms unfolding key_of_eq_Some other_keys_present_def by auto

lemma length_group_keys_two:
  assumes "key_of a = Some k" "key_of b = Some k'" "k \<noteq> k'"
  shows "length (groupby_agg [a, b]) = 2"
  using assms by (simp add: length_groupby_agg group_keys_def List.map_filter_simps)

lemma sorted_index_chart_matrix:
  "sorted (index (chart_matrix df))" "distinct (index (chart_matrix df))"
  using sorted_index_monthly_counts by (simp_all add: chart_matrix_def)

text \<open>
  Claim C9. For a table of three rows, in any order, of which one has an approval date in
  2022, one in January 2023 and one in December 2024, the last two with entries in all key
  columns, the aggregated output has exactly two rows and the month axis of the chart has
  exactly the two months January 2023 and December 2024.
\<close>

theorem three_row_end_to_end:
  assumes "mset df = {#r1, r2, r3#}"
    and "to_datetime (Approved r1) = Some (2022, m1, d1)"
    and "to_datetime (Approved r2) = Some (2023, 1, d2)"
    and "to_datetime (Approved r3) = Some (2024, 12, d3)"
    and "other_keys_present r2" and "other_keys_present r3"
  shows "length (process_data df) = 2 \<and>
         index (chart_matrix (filter_years df)) = [(2023, 1), (2024, 12)]"
proof
  let ?r2 = "r2\<lparr>Date_Approved := Some (2023, 1, d2)\<rparr>"
  let ?r3 = "r3\<lparr>Date_Approved := Some (2024, 12, d3)\<rparr>"
  have m: "mset df = mset [r1, r2, r3]"
    using assms(1) by simp
  have F: "filter_years [r1, r2, r3] = [?r2, ?r3]"
    by (simp add: filter_years_def assign_Date_Approved_def year_isin_def assms(2-4))
  have pd: "process_data df = groupby_agg [?r2, ?r3]"
    using process_data_mset [OF m] by (simp add: process_data_unfold F)
  obtain k1 k2 k3 k4 k5 k6 k7 k8 k9 k11 where
    a: "key_of ?r2 = Some (k1, k2, k3, k4, k5, k6, k7, k8, k9, (2023, 1, d2), k11)"
    using key_of_dated [OF assms(5) to_datetime_Some_Approved [OF assms(3)], of "(2023, 1, d2)"]
    by blast
  obtain j1 j2 j3 j4 j5 j6 j7 j8 j9 j11 where
    b: "key_of ?r3 = Some (j1, j2, j3, j4, j5, j6, j7, j8, j9, (2024, 12, d3), j11)"
    using key_of_dated [OF assms(6) to_datetime_Some_Approved [OF assms(4)], of "(2024, 12, d3)"]
    by blast
  show "length (process_data df) = 2"
    unfolding pd by (rule length_group_keys_two [OF a b]) simp
  have "set (filter_years df) = set [?r2, ?r3]"
    using filter_years_mset [OF m] F by (metis mset_eq_setD)
  then have "set (index (chart_matrix (filter_years df))) = {(2023, 1), (2024, 12)}"
    unfolding set_index_chart_matrix by auto
  then have s: "set (index (chart_matrix (filter_years df))) = set [(2023, 1), (2024, 12)]"
    by simp
  show "index (chart_matrix (filter_years df)) = [(2023, 1), (2024, 12)]"
    by (rule sorted_distinct_set_unique [OF sorted_index_chart_matrix _ _ s]) simp_all
qed

theorem three_row_end_to_end_witness:
  "mset three_filings =
     {#filing ''31/12/2022'' 8, filing ''15/01/2023'' 11, filing ''01/12/2024'' 9#} \<and>
   to_datetime (Approved (filing ''31/12/2022'' 8)) = Some (2022, 12, 31) \<and>
   to_datetime (Approved (filing ''15/01/2023'' 11)) = Some (2023, 1, 15) \<and>
   to_datetime (Approved (filing ''01/12/2024'' 9)) = Some (2024, 12, 1) \<and>
   other_keys_present (filing ''15/01/2023'' 11) \<and>
   other_keys_present (filing ''01/12/2024'' 9) \<and>
   length (process_data three_filings) = 2 \<and>
   index (chart_matrix (filter_years three_filings)) = [(2023, 1), (2024, 12)]"
proof -
  have h1: "mset three_filings =
     {#filing ''31/12/2022'' 8, filing ''15/01/2023'' 11, filing ''01/12/2024'' 9#}"
    by (simp add: three_filings_def)
  have h2: "to_datetime (Approved (filing ''31/12/2022'' 8)) = Some (2022, 12, 31)"
    and h3: "to_datetime (Approved (filing ''15/01/2023'' 11)) = Some (2023, 1, 15)"
    and h4: "to_datetime (Approved (filing ''01/12/2024'' 9)) = Some (2024, 12, 1)"
    by (simp_all add: filing_def date_defs)
  have h5: "other_keys_present (filing ''15/01/2023'' 11)"
    and h6: "other_keys_present (filing ''01/12/2024'' 9)"
    by (simp_all add: filing_def other_keys_present_def)
  from three_row_end_to_end [OF h1 h2 h3 h4 h5 h6]
  have c1: "length (process_data three_filings) = 2"
    and c2: "index (chart_matrix (filter_years three_filings)) = [(2023, 1), (2024, 12)]"
    by simp_all
  show ?thesis
    using h1 h2 h3 h4 h5 h6 c1 c2 by (intro conjI)
qed

section \<open>Properties of the driver\<close>

lemma paths_distinct:
  "RAW_DATA_FILE e \<noteq> PROCESSED_DATA_FILE" "RAW_DATA_FILE e \<noteq> plot_path"
  "PROCESSED_DATA_FILE \<noteq> plot_path"
  by (simp_all add: RAW_DATA_FILE_def PROCESSED_DATA_FILE_def plot_path_def)

lemma new_events_append: "trace w' = trace w @ evs \<Longrightarrow> new_events w w' = evs"
  by (simp add: new_events_def)

lemma raw_file_ready_cases:
  assumes "raw_file_ready e w w1"
  shows "(fs w (RAW_DATA_FILE e) \<noteq> None \<and> w1 = w) \<or>
         (fs w (RAW_DATA_FILE e) = None \<and>
          (\<exists>content. w1 = write_file (RAW_DATA_FILE e) content
                              (w\<lparr>trace := trace w @ [HttpGet DATASET_URL]\<rparr>)))"
  using assms
  by (auto simp: raw_file_ready_def download_data_def Let_def
      split: if_splits sum.splits prod.splits option.splits)

lemma raw_file_ready_events:
  assumes "raw_file_ready e w w1"
  shows "\<exists>evs. trace w1 = trace w @ evs \<and>
           (evs = [] \<or> evs = [HttpGet DATASET_URL, Write (RAW_DATA_FILE e)])"
    and "fs w1 PROCESSED_DATA_FILE = fs w PROCESSED_DATA_FILE"
    and "fs w1 plot_path = fs w plot_path"
  using raw_file_ready_cases [OF assms] paths_distinct(1,2) [of e] paths_distinct(3)
  by (auto simp: write_file_def)

lemma main_after_ready:
  assumes "raw_file_ready e w w1"
  shows "main e w =
     (case load_data e (RAW_DATA_FILE e) w1 of
        Inl err \<Rightarrow> (Inl err, w1)
      | Inr df \<Rightarrow>
          if process_data df = [] then (Inr (), w1)
          else (Inr (), create_visualizations e (filter_years df)
                  (save_processed_data e (process_data df) PROCESSED_DATA_FILE w1)))"
  using assms
  by (auto simp: main_def raw_file_ready_def Let_def split: if_splits sum.splits)

lemma filter_years_empty:
  assumes "\<forall>r\<in>set df. \<forall>y m d. to_datetime (Approved r) = Some (y, m, d) \<longrightarrow> y \<notin> {2023, 2024}"
  shows "filter_years df = []"
  using assms
  by (auto simp: filter_years_def assign_Date_Approved_def year_isin_def filter_empty_conv
      split: option.splits)

lemma save_and_plot:
  "trace (create_visualizations e df (save_processed_data e out PROCESSED_DATA_FILE w1)) =
     trace w1 @ [Write PROCESSED_DATA_FILE, Write plot_path]"
  "fs (create_visualizations e df (save_processed_data e out PROCESSED_DATA_FILE w1))
     PROCESSED_DATA_FILE = Some (to_csv e out)"
  using paths_distinct(3)
  by (simp_all add: create_visualizations_def save_processed_data_def write_file_def)

lemma main_events:
  assumes "raw_file_ready e w w1"
  shows "\<exists>evs. trace (snd (main e w)) = trace w1 @ evs \<and>
     (evs = [] \<and> fs (snd (main e w)) PROCESSED_DATA_FILE = fs w1 PROCESSED_DATA_FILE \<or>
      (\<exists>df. load_data e (RAW_DATA_FILE e) w1 = Inr df \<and> process_data df \<noteq> [] \<and>
         evs = [Write PROCESSED_DATA_FILE, Write plot_path] \<and>
         fs (snd (main e w)) PROCESSED_DATA_FILE = Some (to_csv e (process_data df))))"
  unfolding main_after_ready [OF assms]
  by (cases "load_data e (RAW_DATA_FILE e) w1") (simp_all add: save_and_plot)

lemma written_after_ready:
  assumes "raw_file_ready e w w1"
  shows "written PROCESSED_DATA_FILE w (snd (main e w)) =
     (case load_data e (RAW_DATA_FILE e) w1 of
        Inl err \<Rightarrow> None
      | Inr df \<Rightarrow> if process_data df = [] then None else Some (to_csv e (process_data df)))"
proof -
  obtain evs0 where evs0: "trace w1 = trace w @ evs0"
    "evs0 = [] \<or> evs0 = [HttpGet DATASET_URL, Write (RAW_DATA_FILE e)]"
    using raw_file_ready_events(1) [OF assms] by blast
  obtain evs where evs: "trace (snd (main e w)) = trace w1 @ evs"
    and c: "evs = [] \<and> fs (snd (main e w)) PROCESSED_DATA_FILE = fs w1 PROCESSED_DATA_FILE \<or>
      (\<exists>df. load_data e (RAW_DATA_FILE e) w1 = Inr df \<and> process_data df \<noteq> [] \<and>
         evs = [Write PROCESSED_DATA_FILE, Write plot_path] \<and>
         fs (snd (main e w)) PROCESSED_DATA_FILE = Some (to_csv e (process_data df)))"
    using main_events [OF assms] by blast
  have ne: "new_events w (snd (main e w)) = evs0 @ evs"
    by (rule new_events_append) (simp add: evs evs0(1))
  have nw: "Write PROCESSED_DATA_FILE \<notin> set evs0"
    using evs0(2) paths_distinct(1) [of e] by auto
  from c show ?thesis
  proof
    assume a: "evs = [] \<and> fs (snd (main e w)) PROCESSED_DATA_FILE = fs w1 PROCESSED_DATA_FILE"
    then have "written PROCESSED_DATA_FILE w (snd (main e w)) = None"
      using nw by (simp add: written_def ne)
    moreover have "trace (snd (main e w)) = trace w1"
      using a evs by simp
    then have "(case load_data e (RAW_DATA_FILE e) w1 of
        Inl err \<Rightarrow> None
      | Inr df \<Rightarrow> if process_data df = [] then None else Some (to_csv e (process_data df))) = None"
      unfolding main_after_ready [OF assms]
      by (cases "load_data e (RAW_DATA_FILE e) w1") (auto simp: save_and_plot split: if_splits)
    ultimately show ?thesis by simp
  next
    assume "\<exists>df. load_data e (RAW_DATA_FILE e) w1 = Inr df \<and> process_data df \<noteq> [] \<and>
         evs = [Write PROCESSED_DATA_FILE, Write plot_path] \<and>
         fs (snd (main e w)) PROCESSED_DATA_FILE = Some (to_csv e (process_data df))"
    then show ?thesis
      by (auto simp: written_def ne)
  qed
qed

lemma no_request_if_present:
  assumes "fs w (RAW_DATA_FILE e) \<noteq> None"
  shows "HttpGet url \<notin> set (new_events w (snd (main e w)))"
proof -
  have r: "raw_file_ready e w w"
    using assms by (auto simp: raw_file_ready_def)
  obtain evs where evs: "trace (snd (main e w)) = trace w @ evs"
    and c: "evs = [] \<or> evs = [Write PROCESSED_DATA_FILE, Write plot_path]"
    using main_events [OF r] by blast
  show ?thesis
    using new_events_append [OF evs] c by auto
qed

text \<open>
  Claim C2. When no row of the loaded table has a parsed approval date in 2023 or 2024,
  the transformer returns the empty result and the driver returns normally right after
  the first step: the world is the one that step left, no write to the aggregated CSV or
  to the chart image is among the events of the run, and both files are as they were.
\<close>

theorem empty_result_stops_pipeline:
  assumes "\<forall>r\<in>set df. \<forall>y m d. to_datetime (Approved r) = Some (y, m, d) \<longrightarrow> y \<notin> {2023, 2024}"
    and "raw_file_ready e w w1"
    and "load_data e (RAW_DATA_FILE e) w1 = Inr df"
  shows "process_data df = [] \<and>
         main e w = (Inr (), w1) \<and>
         Write PROCESSED_DATA_FILE \<notin> set (new_events w (snd (main e w))) \<and>
         Write plot_path \<notin> set (new_events w (snd (main e w))) \<and>
         fs (snd (main e w)) PROCESSED_DATA_FILE = fs w PROCESSED_DATA_FILE \<and>
         fs (snd (main e w)) plot_path = fs w plot_path"
proof -
  have pd: "process_data df = []"
    by (simp add: process_data_def filter_years_empty [OF assms(1)])
  have mn: "main e w = (Inr (), w1)"
    by (simp add: main_after_ready [OF assms(2)] assms(3) pd)
  obtain evs where evs: "trace w1 = trace w @ evs"
    "evs = [] \<or> evs = [HttpGet DATASET_URL, Write (RAW_DATA_FILE e)]"
    using raw_file_ready_events(1) [OF assms(2)] by blast
  have ne: "new_events w w1 = evs"
    by (rule new_events_append [OF evs(1)])
  show ?thesis
    using pd mn ne evs(2) raw_file_ready_events(2,3) [OF assms(2)] paths_distinct(1,2) [of e] paths_distinct(3)
    by auto
qed

theorem empty_result_stops_pipeline_witness:
  "map (\<lambda>r. to_datetime (Approved r)) old_table = [Some (2022, 12, 31), None] \<and>
   raw_file_ready (example_env old_table) empty_world
     (write_file (RAW_DATA_FILE (example_env old_table)) ''raw''
        (empty_world\<lparr>trace := [HttpGet DATASET_URL]\<rparr>)) \<and>
   process_data old_table = [] \<and>
   fst (main (example_env old_table) empty_world) = Inr () \<and>
   trace (snd (main (example_env old_table) empty_world)) =
     [HttpGet DATASET_URL, Write (RAW_DATA_FILE (example_env old_table))] \<and>
   fs (snd (main (example_env old_table) empty_world)) PROCESSED_DATA_FILE = None \<and>
   fs (snd (main (example_env old_table) empty_world)) plot_path = None"
proof -
  let ?e = "example_env old_table"
  let ?w1 = "write_file (RAW_DATA_FILE ?e) ''raw'' (empty_world\<lparr>trace := [HttpGet DATASET_URL]\<rparr>)"
  have d: "map (\<lambda>r. to_datetime (Approved r)) old_table = [Some (2022, 12, 31), None]"
    by (simp add: old_table_def filing_def date_defs)
  then have h1: "\<forall>r\<in>set old_table. \<forall>y m d.
      to_datetime (Approved r) = Some (y, m, d) \<longrightarrow> y \<notin> {2023, 2024}"
    by (simp add: old_table_def)
  have h2: "raw_file_ready ?e empty_world ?w1"
    by (simp add: raw_file_ready_def download_data_def example_env_def empty_world_def
        write_file_def)
  have h3: "load_data ?e (RAW_DATA_FILE ?e) ?w1 = Inr old_table"
    by (simp add: load_data_def example_env_def write_file_def)
  note t = empty_result_stops_pipeline [OF h1 h2 h3]
  from t have c1: "process_data old_table = []" by (rule conjunct1)
  from t have c2: "main ?e empty_world = (Inr (), ?w1)" by (elim conjE)
  from t have c3: "fs (snd (main ?e empty_world)) PROCESSED_DATA_FILE =
      fs empty_world PROCESSED_DATA_FILE" by (elim conjE)
  from t have c4: "fs (snd (main ?e empty_world)) plot_path = fs empty_world plot_path"
    by (elim conjE)
  have c5: "trace (snd (main ?e empty_world)) = [HttpGet DATASET_URL, Write (RAW_DATA_FILE ?e)]"
    unfolding c2 by (simp add: write_file_def empty_world_def)
  show ?thesis
    using d h2 c1 c2 c3 c4 c5 by (simp add: empty_world_def)
qed

text \<open>
  Claim C8. When the raw file of the day exists, the run makes no HTTP request. A run that
  finds the file with some contents and a run that does not find it and downloads the same
  contents (which does make the request) end with the same result and write the same
  aggregated CSV, or both write none.
\<close>

theorem existing_raw_file_skips_download:
  "(fs w (RAW_DATA_FILE e) \<noteq> None \<longrightarrow>
      (\<forall>url. HttpGet url \<notin> set (new_events w (snd (main e w))))) \<and>
   (fs w (RAW_DATA_FILE e) = Some content \<and> fs w' (RAW_DATA_FILE e) = None \<and>
    http_get e DATASET_URL = Inr body \<and> write_chunks body [] = (None, content) \<longrightarrow>
      HttpGet DATASET_URL \<in> set (new_events w' (snd (main e w'))) \<and>
      fst (main e w') = fst (main e w) \<and>
      written PROCESSED_DATA_FILE w' (snd (main e w')) =
        written PROCESSED_DATA_FILE w (snd (main e w)))"
proof (intro conjI impI allI)
  show "HttpGet url \<notin> set (new_events w (snd (main e w)))"
    if "fs w (RAW_DATA_FILE e) \<noteq> None" for url
    using that by (rule no_request_if_present)
next
  assume h: "fs w (RAW_DATA_FILE e) = Some content \<and> fs w' (RAW_DATA_FILE e) = None \<and>
    http_get e DATASET_URL = Inr body \<and> write_chunks body [] = (None, content)"
  let ?w1 = "write_file (RAW_DATA_FILE e) content (w'\<lparr>trace := trace w' @ [HttpGet DATASET_URL]\<rparr>)"
  have r: "raw_file_ready e w w"
    using h by (simp add: raw_file_ready_def)
  have r': "raw_file_ready e w' ?w1"
    using h by (simp add: raw_file_ready_def download_data_def)
  have l: "load_data e (RAW_DATA_FILE e) ?w1 = load_data e (RAW_DATA_FILE e) w"
    using h by (simp add: load_data_def write_file_def)
  obtain evs where evs: "trace (snd (main e w')) = trace ?w1 @ evs"
    using main_events [OF r'] by blast
  have "trace (snd (main e w')) = trace w' @ (HttpGet DATASET_URL # Write (RAW_DATA_FILE e) # evs)"
    by (simp add: evs write_file_def)
  from new_events_append [OF this]
  show "HttpGet DATASET_URL \<in> set (new_events w' (snd (main e w')))"
    by simp
  show "fst (main e w') = fst (main e w)"
    unfolding main_after_ready [OF r] main_after_ready [OF r'] l
    by (cases "load_data e (RAW_DATA_FILE e) w") simp_all
  show "written PROCESSED_DATA_FILE w' (snd (main e w')) =
        written PROCESSED_DATA_FILE w (snd (main e w))"
    unfolding written_after_ready [OF r] written_after_ready [OF r'] l ..
qed

theorem existing_raw_file_skips_download_witness:
  "fs (write_file (RAW_DATA_FILE (example_env example_table)) ''raw'' empty_world)
     (RAW_DATA_FILE (example_env example_table)) = Some ''raw'' \<and>
   fs empty_world (RAW_DATA_FILE (example_env example_table)) = None \<and>
   http_get (example_env example_table) DATASET_URL = Inr [Chunk ''ra'', Chunk ''w''] \<and>
   write_chunks [Chunk ''ra'', Chunk ''w''] [] = (None, ''raw'') \<and>
   HttpGet DATASET_URL \<in> set (new_events empty_world
     (snd (main (example_env example_table) empty_world))) \<and>
   written PROCESSED_DATA_FILE empty_world
     (snd (main (example_env example_table) empty_world)) =
   written PROCESSED_DATA_FILE
     (write_file (RAW_DATA_FILE (example_env example_table)) ''raw'' empty_world)
     (snd (main (example_env example_table)
        (write_file (RAW_DATA_FILE (example_env example_table)) ''raw'' empty_world)))"
proof -
  let ?e = "example_env example_table"
  let ?w = "write_file (RAW_DATA_FILE ?e) ''raw'' empty_world"
  have h: "fs ?w (RAW_DATA_FILE ?e) = Some ''raw'' \<and> fs empty_world (RAW_DATA_FILE ?e) = None \<and>
    http_get ?e DATASET_URL = Inr [Chunk ''ra'', Chunk ''w''] \<and>
    write_chunks [Chunk ''ra'', Chunk ''w''] [] = (None, ''raw'')"
    by (simp add: write_file_def empty_world_def example_env_def)
  note t = existing_raw_file_skips_download [of ?w ?e "''raw''" empty_world
      "[Chunk ''ra'', Chunk ''w'']"]
  from t h have c1: "HttpGet DATASET_URL \<in> set (new_events empty_world (snd (main ?e empty_world)))"
    by blast
  from t h have c2: "written PROCESSED_DATA_FILE empty_world (snd (main ?e empty_world)) =
      written PROCESSED_DATA_FILE ?w (snd (main ?e ?w))"
    by blast
  show ?thesis
    using h c1 c2 by (intro conjI) simp_all
qed

end
